theory Spec2Isabelle
  imports Complex_Main "HOL-Library.AList"
begin

section \<open>Shared data model\<close>

text \<open>
  The TypeScript interface \<open>RGBA\<close> of \<open>utils/color.ts\<close> has four \<open>number\<close> fields.
  The record is polymorphic in the type of a channel: the colour arithmetic works on
  finite numbers (\<open>real RGBA\<close>), the parser can produce \<open>NaN\<close> channels
  (\<open>number RGBA\<close>, see below), and the registry only prints the channels into a key.
\<close>

record 'n RGBA =
  rgb_r :: 'n
  rgb_g :: 'n
  rgb_b :: 'n
  rgb_a :: 'n

text \<open>\<open>type ColorType = 'background' | 'text' | 'border'\<close>.\<close>

datatype ColorType = Background | Text | Border


section \<open>JavaScript numbers\<close>

text \<open>
  A \<open>number\<close> is a finite value, one of the two infinities, or \<open>NaN\<close>; \<open>-0\<close> is
  not told apart from \<open>0\<close> (a zero divisor counts as \<open>+0\<close>). The operations below
  are the JavaScript operators \<open>+\<close>, \<open>-\<close>, \<open>*\<close>, \<open>/\<close>, \<open>Math.min\<close>,
  \<open>Math.max\<close> and \<open><=\<close>. An arithmetic operation on two finite values rounds its
  exact result to a double, so it can overflow to an infinity and underflow to zero.
\<close>

datatype number = NaN | NInf | Fin real | PInf

text \<open>An infinity of the given sign.\<close>

definition signed_inf :: "bool \<Rightarrow> number" where
  "signed_inf positive = (if positive then PInf else NInf)"

text \<open>
  Rounding of a real to the nearest double (binary64), ties to the even significand. With
  \<open>e\<close> the binary exponent of \<open>x\<close>, not below that of the smallest normal number,
  doubles near \<open>x\<close> are the integer multiples of \<open>2 powr (e - 52)\<close>; a result of
  magnitude \<open>2 powr 1024\<close> or more is an infinity.
\<close>

definition round_half_even :: "real \<Rightarrow> int" where
  "round_half_even r =
     (let f = \<lfloor>r\<rfloor>; d = r - of_int f
      in if d < 1 / 2 then f else if 1 / 2 < d then f + 1 else if even f then f else f + 1)"

definition to_double :: "real \<Rightarrow> number" where
  "to_double x =
     (if x = 0 then Fin 0
      else
        let e = max \<lfloor>log 2 \<bar>x\<bar>\<rfloor> (- 1022);
            ulp = 2 powr (of_int e - 52);
            y = of_int (round_half_even (x / ulp)) * ulp
        in if 2 powr 1024 \<le> \<bar>y\<bar> then signed_inf (0 < x) else Fin y)"

fun n_neg :: "number \<Rightarrow> number" where
  "n_neg NaN = NaN"
| "n_neg NInf = PInf"
| "n_neg PInf = NInf"
| "n_neg (Fin x) = Fin (- x)"

fun n_add :: "number \<Rightarrow> number \<Rightarrow> number" where
  "n_add NaN _ = NaN"
| "n_add _ NaN = NaN"
| "n_add (Fin x) (Fin y) = to_double (x + y)"
| "n_add PInf NInf = NaN"
| "n_add NInf PInf = NaN"
| "n_add PInf _ = PInf"
| "n_add NInf _ = NInf"
| "n_add (Fin x) PInf = PInf"
| "n_add (Fin x) NInf = NInf"

definition n_sub :: "number \<Rightarrow> number \<Rightarrow> number" where
  "n_sub x y = n_add x (n_neg y)"

fun n_mul :: "number \<Rightarrow> number \<Rightarrow> number" where
  "n_mul NaN _ = NaN"
| "n_mul _ NaN = NaN"
| "n_mul (Fin x) (Fin y) = to_double (x * y)"
| "n_mul PInf PInf = PInf"
| "n_mul NInf NInf = PInf"
| "n_mul PInf NInf = NInf"
| "n_mul NInf PInf = NInf"
| "n_mul PInf (Fin y) = (if y = 0 then NaN else signed_inf (0 < y))"
| "n_mul NInf (Fin y) = (if y = 0 then NaN else signed_inf (y < 0))"
| "n_mul (Fin x) PInf = (if x = 0 then NaN else signed_inf (0 < x))"
| "n_mul (Fin x) NInf = (if x = 0 then NaN else signed_inf (x < 0))"

fun n_div :: "number \<Rightarrow> number \<Rightarrow> number" where
  "n_div NaN _ = NaN"
| "n_div _ NaN = NaN"
| "n_div (Fin x) (Fin y) =
     (if y = 0 then (if x = 0 then NaN else signed_inf (0 < x)) else to_double (x / y))"
| "n_div (Fin x) PInf = Fin 0"
| "n_div (Fin x) NInf = Fin 0"
| "n_div PInf (Fin y) = signed_inf (0 \<le> y)"
| "n_div NInf (Fin y) = signed_inf (y < 0)"
| "n_div PInf _ = NaN"
| "n_div NInf _ = NaN"

fun n_le :: "number \<Rightarrow> number \<Rightarrow> bool" where
  "n_le NaN _ = False"
| "n_le _ NaN = False"
| "n_le NInf _ = True"
| "n_le _ PInf = True"
| "n_le (Fin x) (Fin y) = (x \<le> y)"
| "n_le PInf _ = False"
| "n_le (Fin x) NInf = False"

fun n_max :: "number \<Rightarrow> number \<Rightarrow> number" where
  "n_max NaN _ = NaN"
| "n_max _ NaN = NaN"
| "n_max x y = (if n_le x y then y else x)"

fun n_min :: "number \<Rightarrow> number \<Rightarrow> number" where
  "n_min NaN _ = NaN"
| "n_min _ NaN = NaN"
| "n_min x y = (if n_le x y then x else y)"

text \<open>
  The colour arithmetic further down (\<open>rgbToHSL\<close>, \<open>hslToRGB\<close>, the transform
  pipeline, the contrast ratio) works on finite values and is written on the reals, without
  the rounding of each operation.

  \<open>Math.round\<close> on a finite value rounds to the nearest integer, a half upwards.
\<close>

definition js_round :: "real \<Rightarrow> int" where
  "js_round x = \<lfloor>x + 1 / 2\<rfloor>"

text \<open>The remainder operator \<open>%\<close> on finite values with a non-zero divisor: the
  quotient is truncated towards zero, so the result has the sign of the dividend.\<close>

definition js_trunc :: "real \<Rightarrow> int" where
  "js_trunc x = (if 0 \<le> x then \<lfloor>x\<rfloor> else \<lceil>x\<rceil>)"

definition js_rem :: "real \<Rightarrow> real \<Rightarrow> real" where
  "js_rem x y = x - y * of_int (js_trunc (x / y))"

section \<open>Color utilities (\<open>utils/color.ts\<close>)\<close>

record HSLA =
  hsl_h :: real
  hsl_s :: real
  hsl_l :: real
  hsl_a :: real

subsection \<open>\<open>scale\<close> and \<open>clamp\<close>\<close>

definition clamp :: "number \<Rightarrow> number \<Rightarrow> number \<Rightarrow> number" where
  "clamp v lo hi = n_min (n_max v lo) hi"

text \<open>The first argument of the \<open>clamp\<close> call in \<open>scale\<close>.\<close>

definition linear_remap :: "number \<Rightarrow> number \<Rightarrow> number \<Rightarrow> number \<Rightarrow> number \<Rightarrow> number" where
  "linear_remap v inMin inMax outMin outMax =
     n_add outMin (n_div (n_mul (n_sub v inMin) (n_sub outMax outMin)) (n_sub inMax inMin))"

definition scale :: "number \<Rightarrow> number \<Rightarrow> number \<Rightarrow> number \<Rightarrow> number \<Rightarrow> number" where
  "scale v inMin inMax outMin outMax =
     clamp (linear_remap v inMin inMax outMin outMax)
       (n_min outMin outMax) (n_max outMin outMax)"

text \<open>
  The same two functions on real arithmetic, without rounding, for the callers in the
  colour pipeline: every call there passes two different constants as \<open>inMin\<close> and
  \<open>inMax\<close>, so no division by zero arises.
\<close>

definition clamp_fin :: "real \<Rightarrow> real \<Rightarrow> real \<Rightarrow> real" where
  "clamp_fin v lo hi = min (max v lo) hi"

definition scale_fin :: "real \<Rightarrow> real \<Rightarrow> real \<Rightarrow> real \<Rightarrow> real \<Rightarrow> real" where
  "scale_fin v inMin inMax outMin outMax =
     clamp_fin (outMin + ((v - inMin) * (outMax - outMin)) / (inMax - inMin))
       (min outMin outMax) (max outMin outMax)"

subsection \<open>RGB and HSL\<close>

text \<open>
  \<open>rgbToHSL\<close> and \<open>hslToRGB\<close> on finite channels. The only divisions are by 255, by
  60, by the chroma \<open>c\<close> (tested non-zero before) and by \<open>1 - |2l - 1|\<close>, which is
  non-zero when the chroma is non-zero and the channels lie in 0..255.
\<close>

definition rgbToHSL :: "real RGBA \<Rightarrow> HSLA" where
  "rgbToHSL rgb =
     (let r = rgb_r rgb / 255; g = rgb_g rgb / 255; b = rgb_b rgb / 255; a = rgb_a rgb;
          mx = max (max r g) b; mn = min (min r g) b;
          c = mx - mn;
          l = (mx + mn) / 2
      in if c = 0 then \<lparr>hsl_h = 0, hsl_s = 0, hsl_l = l, hsl_a = a\<rparr>
         else
           let h0 = (if mx = r then js_rem ((g - b) / c) 6
                     else if mx = g then (b - r) / c + 2
                     else (r - g) / c + 4);
               h1 = h0 * 60;
               h = (if h1 < 0 then h1 + 360 else h1);
               s = c / (1 - \<bar>2 * l - 1\<bar>)
           in \<lparr>hsl_h = h, hsl_s = s, hsl_l = l, hsl_a = a\<rparr>)"

text \<open>The \<open>.map((n) => Math.round(n * 255))\<close> over the three channels.\<close>

definition rounded_rgb :: "real \<Rightarrow> real \<Rightarrow> real \<Rightarrow> real \<Rightarrow> real RGBA" where
  "rounded_rgb r g b a =
     \<lparr>rgb_r = of_int (js_round (r * 255)), rgb_g = of_int (js_round (g * 255)),
      rgb_b = of_int (js_round (b * 255)), rgb_a = a\<rparr>"

definition hslToRGB :: "HSLA \<Rightarrow> real RGBA" where
  "hslToRGB hsl =
     (let h = hsl_h hsl; s = hsl_s hsl; l = hsl_l hsl; a = hsl_a hsl
      in if s = 0
         then (let gray = of_int (js_round (l * 255))
               in \<lparr>rgb_r = gray, rgb_g = gray, rgb_b = gray, rgb_a = a\<rparr>)
         else
           let c = (1 - \<bar>2 * l - 1\<bar>) * s;
               x = c * (1 - \<bar>js_rem (h / 60) 2 - 1\<bar>);
               m = l - c / 2;
               (r, g, b) = (if h < 60 then (c, x, 0)
                            else if h < 120 then (x, c, 0)
                            else if h < 180 then (0, c, x)
                            else if h < 240 then (0, x, c)
                            else if h < 300 then (x, 0, c)
                            else (c, 0, x))
           in rounded_rgb (r + m) (g + m) (b + m) a)"

section \<open>Parsing colours (\<open>utils/color.ts\<close>)\<close>

text \<open>
  Strings are lists of 8-bit characters; the inputs of interest are ASCII, where a
  character is one UTF-16 code unit, so \<open>length\<close> is JavaScript's \<open>length\<close>.
  \<open>trim\<close> strips the ASCII white space (space, tab, line feed, vertical tab, form feed,
  carriage return) and \<open>toLowerCase\<close> maps the letters A to Z.
\<close>

definition is_space :: "char \<Rightarrow> bool" where
  "is_space c = (c \<in> set [CHR '' '', CHR 0x09, CHR 0x0A, CHR 0x0B, CHR 0x0C, CHR 0x0D])"

definition trim :: "string \<Rightarrow> string" where
  "trim s = rev (dropWhile is_space (rev (dropWhile is_space s)))"

definition lower_char :: "char \<Rightarrow> char" where
  "lower_char c =
     (case map_of (zip ''ABCDEFGHIJKLMNOPQRSTUVWXYZ'' ''abcdefghijklmnopqrstuvwxyz'') c of
        Some l \<Rightarrow> l
      | None \<Rightarrow> c)"

definition toLowerCase :: "string \<Rightarrow> string" where
  "toLowerCase s = map lower_char s"

definition startsWith :: "string \<Rightarrow> string \<Rightarrow> bool" where
  "startsWith s p = (take (length p) s = p)"

text \<open>The value of a hexadecimal digit, of either case.\<close>

definition hex_digit :: "char \<Rightarrow> int option" where
  "hex_digit c =
     map_of (zip ''0123456789abcdefABCDEF''
               [0, 1, 2, 3, 4, 5, 6, 7, 8, 9, 10, 11, 12, 13, 14, 15, 10, 11, 12, 13, 14, 15]) c"

fun hex_value :: "int \<Rightarrow> string \<Rightarrow> int" where
  "hex_value acc [] = acc"
| "hex_value acc (c # cs) = hex_value (acc * 16 + (case hex_digit c of Some d \<Rightarrow> d | None \<Rightarrow> 0)) cs"

text \<open>
  \<open>parseInt(s, 16)\<close>: leading white space is skipped, a sign and then a prefix \<open>0x\<close>
  or \<open>0X\<close> are accepted, and the longest run of hexadecimal digits that follows is the
  value; with no digit there the result is \<open>NaN\<close>.
\<close>

definition parseInt16 :: "string \<Rightarrow> number" where
  "parseInt16 s =
     (let s1 = dropWhile is_space s;
          negative = startsWith s1 ''-'';
          s2 = (if startsWith s1 ''-'' \<or> startsWith s1 ''+'' then tl s1 else s1);
          s3 = (if startsWith s2 ''0x'' \<or> startsWith s2 ''0X'' then drop 2 s2 else s2);
          digits = takeWhile (\<lambda>c. hex_digit c \<noteq> None) s3
      in if digits = [] then NaN
         else Fin (of_int ((if negative then - 1 else 1) * hex_value 0 digits)))"

text \<open>\<open>h.substring(i, j)\<close> for \<open>0 \<le> i \<le> j\<close>.\<close>

definition substring :: "string \<Rightarrow> nat \<Rightarrow> nat \<Rightarrow> string" where
  "substring s i j = take (j - i) (drop i s)"

definition parseHex :: "string \<Rightarrow> number RGBA option" where
  "parseHex hex =
     (let h = (if startsWith hex ''#'' then drop 1 hex else hex)
      in if length h = 3 \<or> length h = 4 then
           Some \<lparr>rgb_r = parseInt16 [h ! 0, h ! 0], rgb_g = parseInt16 [h ! 1, h ! 1],
                 rgb_b = parseInt16 [h ! 2, h ! 2],
                 rgb_a = (if length h = 3 then Fin 1
                          else n_div (parseInt16 [h ! 3, h ! 3]) (Fin 255))\<rparr>
         else if length h = 6 \<or> length h = 8 then
           Some \<lparr>rgb_r = parseInt16 (substring h 0 2), rgb_g = parseInt16 (substring h 2 4),
                 rgb_b = parseInt16 (substring h 4 6),
                 rgb_a = (if length h = 6 then Fin 1
                          else n_div (parseInt16 (substring h 6 8)) (Fin 255))\<rparr>
         else None)"

text \<open>The table \<open>knownColors\<close>.\<close>

definition knownColors :: "(string \<times> nat) list" where
  "knownColors =
     [
      (''aliceblue'', 0xF0F8FF), (''antiquewhite'', 0xFAEBD7), (''aqua'', 0x00FFFF),
      (''aquamarine'', 0x7FFFD4), (''azure'', 0xF0FFFF), (''beige'', 0xF5F5DC),
      (''bisque'', 0xFFE4C4), (''black'', 0x000000), (''blanchedalmond'', 0xFFEBCD),
      (''blue'', 0x0000FF), (''blueviolet'', 0x8A2BE2), (''brown'', 0xA52A2A),
      (''burlywood'', 0xDEB887), (''cadetblue'', 0x5F9EA0), (''chartreuse'', 0x7FFF00),
      (''chocolate'', 0xD2691E), (''coral'', 0xFF7F50), (''cornflowerblue'', 0x6495ED),
      (''cornsilk'', 0xFFF8DC), (''crimson'', 0xDC143C), (''cyan'', 0x00FFFF),
      (''darkblue'', 0x00008B), (''darkcyan'', 0x008B8B), (''darkgoldenrod'', 0xB8860B),
      (''darkgray'', 0xA9A9A9), (''darkgrey'', 0xA9A9A9), (''darkgreen'', 0x006400),
      (''darkkhaki'', 0xBDB76B), (''darkmagenta'', 0x8B008B), (''darkolivegreen'', 0x556B2F),
      (''darkorange'', 0xFF8C00), (''darkorchid'', 0x9932CC), (''darkred'', 0x8B0000),
      (''darksalmon'', 0xE9967A), (''darkseagreen'', 0x8FBC8F), (''darkslateblue'', 0x483D8B),
      (''darkslategray'', 0x2F4F4F), (''darkslategrey'', 0x2F4F4F), (''darkturquoise'', 0x00CED1),
      (''darkviolet'', 0x9400D3), (''deeppink'', 0xFF1493), (''deepskyblue'', 0x00BFFF),
      (''dimgray'', 0x696969), (''dimgrey'', 0x696969), (''dodgerblue'', 0x1E90FF),
      (''firebrick'', 0xB22222), (''floralwhite'', 0xFFFAF0), (''forestgreen'', 0x228B22),
      (''fuchsia'', 0xFF00FF), (''gainsboro'', 0xDCDCDC), (''ghostwhite'', 0xF8F8FF),
      (''gold'', 0xFFD700), (''goldenrod'', 0xDAA520), (''gray'', 0x808080),
      (''grey'', 0x808080), (''green'', 0x008000), (''greenyellow'', 0xADFF2F),
      (''honeydew'', 0xF0FFF0), (''hotpink'', 0xFF69B4), (''indianred'', 0xCD5C5C),
      (''indigo'', 0x4B0082), (''ivory'', 0xFFFFF0), (''khaki'', 0xF0E68C),
      (''lavender'', 0xE6E6FA), (''lavenderblush'', 0xFFF0F5), (''lawngreen'', 0x7CFC00),
      (''lemonchiffon'', 0xFFFACD), (''lightblue'', 0xADD8E6), (''lightcoral'', 0xF08080),
      (''lightcyan'', 0xE0FFFF), (''lightgoldenrodyellow'', 0xFAFAD2), (''lightgray'', 0xD3D3D3),
      (''lightgrey'', 0xD3D3D3), (''lightgreen'', 0x90EE90), (''lightpink'', 0xFFB6C1),
      (''lightsalmon'', 0xFFA07A), (''lightseagreen'', 0x20B2AA), (''lightskyblue'', 0x87CEFA),
      (''lightslategray'', 0x778899), (''lightslategrey'', 0x778899), (''lightsteelblue'', 0xB0C4DE),
      (''lightyellow'', 0xFFFFE0), (''lime'', 0x00FF00), (''limegreen'', 0x32CD32),
      (''linen'', 0xFAF0E6), (''magenta'', 0xFF00FF), (''maroon'', 0x800000),
      (''mediumaquamarine'', 0x66CDAA), (''mediumblue'', 0x0000CD), (''mediumorchid'', 0xBA55D3),
      (''mediumpurple'', 0x9370DB), (''mediumseagreen'', 0x3CB371), (''mediumslateblue'', 0x7B68EE),
      (''mediumspringgreen'', 0x00FA9A), (''mediumturquoise'', 0x48D1CC), (''mediumvioletred'', 0xC71585),
      (''midnightblue'', 0x191970), (''mintcream'', 0xF5FFFA), (''mistyrose'', 0xFFE4E1),
      (''moccasin'', 0xFFE4B5), (''navajowhite'', 0xFFDEAD), (''navy'', 0x000080),
      (''oldlace'', 0xFDF5E6), (''olive'', 0x808000), (''olivedrab'', 0x6B8E23),
      (''orange'', 0xFFA500), (''orangered'', 0xFF4500), (''orchid'', 0xDA70D6),
      (''palegoldenrod'', 0xEEE8AA), (''palegreen'', 0x98FB98), (''paleturquoise'', 0xAFEEEE),
      (''palevioletred'', 0xDB7093), (''papayawhip'', 0xFFEFD5), (''peachpuff'', 0xFFDAB9),
      (''peru'', 0xCD853F), (''pink'', 0xFFC0CB), (''plum'', 0xDDA0DD),
      (''powderblue'', 0xB0E0E6), (''purple'', 0x800080), (''rebeccapurple'', 0x663399),
      (''red'', 0xFF0000), (''rosybrown'', 0xBC8F8F), (''royalblue'', 0x4169E1),
      (''saddlebrown'', 0x8B4513), (''salmon'', 0xFA8072), (''sandybrown'', 0xF4A460),
      (''seagreen'', 0x2E8B57), (''seashell'', 0xFFF5EE), (''sienna'', 0xA0522D),
      (''silver'', 0xC0C0C0), (''skyblue'', 0x87CEEB), (''slateblue'', 0x6A5ACD),
      (''slategray'', 0x708090), (''slategrey'', 0x708090), (''snow'', 0xFFFAFA),
      (''springgreen'', 0x00FF7F), (''steelblue'', 0x4682B4), (''tan'', 0xD2B48C),
      (''teal'', 0x008080), (''thistle'', 0xD8BFD8), (''tomato'', 0xFF6347),
      (''turquoise'', 0x40E0D0), (''violet'', 0xEE82EE), (''wheat'', 0xF5DEB3),
      (''white'', 0xFFFFFF), (''whitesmoke'', 0xF5F5F5), (''yellow'', 0xFFFF00),
      (''yellowgreen'', 0x9ACD32)]"

text \<open>
  \<open>knownColors[name]\<close> reads a property of a plain object, so besides the table it
  finds what the object inherits from \<open>Object.prototype\<close>; of those names only
  \<open>constructor\<close> and \<open>__proto__\<close> are in lower case. Their values are not numbers,
  and \<open>>>\<close> turns them into 0.
\<close>

definition parseNamedColor :: "string \<Rightarrow> number RGBA option" where
  "parseNamedColor name =
     (let key = toLowerCase name
      in case map_of knownColors key of
           Some n \<Rightarrow>
             Some \<lparr>rgb_r = Fin (of_nat ((n div 65536) mod 256)),
                   rgb_g = Fin (of_nat ((n div 256) mod 256)),
                   rgb_b = Fin (of_nat (n mod 256)), rgb_a = Fin 1\<rparr>
         | None \<Rightarrow>
             if key = ''constructor'' \<or> key = ''__proto__''
             then Some \<lparr>rgb_r = Fin 0, rgb_g = Fin 0, rgb_b = Fin 0, rgb_a = Fin 1\<rparr>
             else None)"

text \<open>
  \<open>parseColor\<close>, with the module's \<open>rgbaParseCache\<close> as state. The bodies of
  \<open>parseRGB\<close> and \<open>parseHSL\<close> (regular expressions and \<open>parseFloat\<close>) are not
  modelled: the two functions are parameters. The branch for \<open>transparent\<close> after the
  keyword test is the source's; the test before it returns first.
\<close>

definition parseColor ::
  "(string \<Rightarrow> number RGBA option) \<Rightarrow> (string \<Rightarrow> number RGBA option) \<Rightarrow> string \<Rightarrow>
     (string \<rightharpoonup> number RGBA) \<Rightarrow> number RGBA option \<times> (string \<rightharpoonup> number RGBA)" where
  "parseColor parseRGB parseHSL color rgbaParseCache =
     (let normalized = toLowerCase (trim color)
      in case rgbaParseCache normalized of
           Some cached \<Rightarrow> (Some cached, rgbaParseCache)
         | None \<Rightarrow>
             if normalized = ''inherit'' \<or> normalized = ''transparent'' \<or> normalized = ''initial''
                \<or> normalized = ''currentcolor'' \<or> normalized = ''none'' \<or> normalized = ''unset''
                \<or> normalized = ''auto''
             then (None, rgbaParseCache)
             else
               let result =
                     (if normalized = ''transparent''
                      then Some \<lparr>rgb_r = Fin 0, rgb_g = Fin 0, rgb_b = Fin 0, rgb_a = Fin 0\<rparr>
                      else if startsWith normalized ''#'' then parseHex normalized
                      else if startsWith normalized ''rgb'' then parseRGB normalized
                      else if startsWith normalized ''hsl'' then parseHSL normalized
                      else parseNamedColor normalized)
               in case result of
                    Some rgba \<Rightarrow> (Some rgba, rgbaParseCache(normalized \<mapsto> rgba))
                  | None \<Rightarrow> (None, rgbaParseCache))"

section \<open>Contrast repair of the CSS processor (\<open>services/cssProcessor.ts\<close>)\<close>

text \<open>The processor's own colour type \<open>{ r, g, b }\<close>, without alpha.\<close>

record RGB =
  ch_r :: real
  ch_g :: real
  ch_b :: real

text \<open>
  The map inside \<open>getRelativeLuminance\<close>. The power is taken only of a base above
  \<open>(0.03928 + 0.055) / 1.055\<close>, where \<open>Math.pow\<close> is the real power \<open>powr\<close>.
\<close>

definition linear_channel :: "real \<Rightarrow> real" where
  "linear_channel val =
     (let v = val / 255
      in if v \<le> 0.03928 then v / 12.92 else ((v + 0.055) / 1.055) powr 2.4)"

definition getRelativeLuminance :: "RGB \<Rightarrow> real" where
  "getRelativeLuminance rgb =
     0.2126 * linear_channel (ch_r rgb) + 0.7152 * linear_channel (ch_g rgb)
       + 0.0722 * linear_channel (ch_b rgb)"

definition getContrastRatio :: "RGB \<Rightarrow> RGB \<Rightarrow> real" where
  "getContrastRatio rgb1 rgb2 =
     (let lum1 = getRelativeLuminance rgb1; lum2 = getRelativeLuminance rgb2;
          lighter = max lum1 lum2; darker = min lum1 lum2
      in (lighter + 0.05) / (darker + 0.05))"

text \<open>One pass through the body of the \<open>for\<close> loop of \<open>adjustForContrast\<close>, up to
  the new value of \<open>adjusted\<close>.\<close>

definition adjust_step :: "bool \<Rightarrow> RGB \<Rightarrow> RGB" where
  "adjust_step shouldLighten adjusted =
     (if shouldLighten
      then \<lparr>ch_r = min 255 (ch_r adjusted + 15), ch_g = min 255 (ch_g adjusted + 15),
            ch_b = min 255 (ch_b adjusted + 15)\<rparr>
      else \<lparr>ch_r = max 0 (ch_r adjusted - 15), ch_g = max 0 (ch_g adjusted - 15),
            ch_b = max 0 (ch_b adjusted - 15)\<rparr>)"

text \<open>The loop with \<open>n\<close> iterations left; it leaves at the \<open>break\<close> or when the
  counter is used up.\<close>

fun adjust_loop :: "nat \<Rightarrow> bool \<Rightarrow> RGB \<Rightarrow> RGB \<Rightarrow> real \<Rightarrow> RGB" where
  "adjust_loop 0 shouldLighten adjusted bgRgb targetRatio = adjusted"
| "adjust_loop (Suc n) shouldLighten adjusted bgRgb targetRatio =
     (let adjusted' = adjust_step shouldLighten adjusted;
          ratio = getContrastRatio adjusted' bgRgb
      in if ratio \<ge> targetRatio then adjusted'
         else adjust_loop n shouldLighten adjusted' bgRgb targetRatio)"

definition adjustForContrast :: "RGB \<Rightarrow> RGB \<Rightarrow> real \<Rightarrow> RGB" where
  "adjustForContrast textRgb bgRgb targetRatio =
     (let ratio = getContrastRatio textRgb bgRgb
      in if ratio \<ge> targetRatio then textRgb
         else
           let bgLuminance = getRelativeLuminance bgRgb;
               shouldLighten = bgLuminance < 0.5
           in adjust_loop 20 shouldLighten textRgb bgRgb targetRatio)"

text \<open>
  The same loop, recording what each executed iteration computes: the new \<open>adjusted\<close>
  and the new \<open>ratio\<close>. The last entry holds the colour that \<open>adjust_loop\<close> returns
  (lemma \<open>adjust_loop_trace\<close>).
\<close>

fun adjust_trace :: "nat \<Rightarrow> bool \<Rightarrow> RGB \<Rightarrow> RGB \<Rightarrow> real \<Rightarrow> (RGB \<times> real) list" where
  "adjust_trace 0 shouldLighten adjusted bgRgb targetRatio = []"
| "adjust_trace (Suc n) shouldLighten adjusted bgRgb targetRatio =
     (let adjusted' = adjust_step shouldLighten adjusted;
          ratio = getContrastRatio adjusted' bgRgb
      in (adjusted', ratio) #
         (if ratio \<ge> targetRatio then []
          else adjust_trace n shouldLighten adjusted' bgRgb targetRatio))"

definition gray :: "real \<Rightarrow> RGB" where
  "gray k = \<lparr>ch_r = k, ch_g = k, ch_b = k\<rparr>"

text \<open>The upper branch of \<open>linear_channel\<close>.\<close>

definition gamma_expanded :: "real \<Rightarrow> real" where
  "gamma_expanded k = ((k / 255 + 0.055) / 1.055) powr 2.4"

text \<open>
  The processor's own \<open>parseColor\<close>: the trimmed text has to match
  \<open>/^#?([a-f\d]{2})([a-f\d]{2})([a-f\d]{2})$/i\<close>, and each pair of digits is read by
  \<open>parseInt(_, 16)\<close>, which on two hexadecimal digits is their value.
\<close>

definition css_parseColor :: "string \<Rightarrow> RGB option" where
  "css_parseColor color =
     (let hex = trim color;
          h = (if startsWith hex ''#'' then drop 1 hex else hex)
      in if length h = 6 \<and> list_all (\<lambda>c. hex_digit c \<noteq> None) h
         then Some \<lparr>ch_r = of_int (hex_value 0 (substring h 0 2)),
                    ch_g = of_int (hex_value 0 (substring h 2 4)),
                    ch_b = of_int (hex_value 0 (substring h 4 6))\<rparr>
         else None)"

section \<open>Color registry (\<open>services/colorRegistry.ts\<close>)\<close>

text \<open>
  \<open>getKey\<close> prints the four channels, separated by commas. Two numbers print to the
  same text exactly when they are the same number, and a printed number holds no comma, so
  the key is modelled as the quadruple of the channels.
\<close>

type_synonym 'n rgb_key = "'n \<times> 'n \<times> 'n \<times> 'n"

definition getKey :: "'n RGBA \<Rightarrow> 'n rgb_key" where
  "getKey rgb = (rgb_r rgb, rgb_g rgb, rgb_b rgb, rgb_a rgb)"

record 'n RegisteredColor =
  originalHex :: string
  originalRGB :: "'n RGBA"
  transformedHex :: string
  colorType :: ColorType
  themeId :: string
  timestamp :: int
  usageCount :: nat

record RegistryStats =
  hits :: nat
  misses :: nat
  registrations :: nat
  evictions :: nat

text \<open>
  The class \<open>ColorRegistry\<close>. A JavaScript \<open>Map\<close> iterates in insertion order and
  \<open>set\<close> on a present key keeps its place, which is what \<open>AList.update\<close> does on an
  association list; \<open>registry.size\<close> is the length of the list. A \<open>Set\<close> of keys is a
  list without repetition. \<open>Date.now()\<close> is an argument of every operation that reads
  the clock.
\<close>

record 'n ColorRegistry =
  registry :: "('n rgb_key \<times> 'n RegisteredColor) list"
  themeRegistry :: "(string \<times> 'n rgb_key list) list"
  maxSize :: nat
  stats :: RegistryStats

definition new_ColorRegistry :: "nat \<Rightarrow> 'n ColorRegistry" where
  "new_ColorRegistry m =
     \<lparr>registry = [], themeRegistry = [], maxSize = m,
      stats = \<lparr>hits = 0, misses = 0, registrations = 0, evictions = 0\<rparr>\<rparr>"

definition set_add :: "'a \<Rightarrow> 'a list \<Rightarrow> 'a list" where
  "set_add k ks = (if k \<in> set ks then ks else ks @ [k])"

text \<open>The scan of \<open>evictLRU\<close>: the first entry with the strictly smallest timestamp
  below the clock reading.\<close>

fun oldest_scan ::
  "('k \<times> 'n RegisteredColor) list \<Rightarrow> 'k option \<times> int \<Rightarrow> 'k option \<times> int" where
  "oldest_scan [] acc = acc"
| "oldest_scan ((k, e) # rest) (oldestKey, oldestTime) =
     (if timestamp e < oldestTime then oldest_scan rest (Some k, timestamp e)
      else oldest_scan rest (oldestKey, oldestTime))"

definition evictLRU :: "int \<Rightarrow> 'n ColorRegistry \<Rightarrow> 'n ColorRegistry" where
  "evictLRU now reg =
     (case fst (oldest_scan (registry reg) (None, now)) of
        None \<Rightarrow> reg
      | Some oldestKey \<Rightarrow>
          (case map_of (registry reg) oldestKey of
             None \<Rightarrow> reg
           | Some entry \<Rightarrow>
               reg\<lparr>registry := AList.delete oldestKey (registry reg),
                   themeRegistry :=
                     (case map_of (themeRegistry reg) (themeId entry) of
                        None \<Rightarrow> themeRegistry reg
                      | Some keys \<Rightarrow>
                          AList.update (themeId entry) (removeAll oldestKey keys)
                            (themeRegistry reg)),
                   stats := (stats reg)\<lparr>evictions := evictions (stats reg) + 1\<rparr>\<rparr>))"

text \<open>
  \<open>register\<close>; \<open>now_evict\<close> is the clock reading of \<open>evictLRU\<close>, \<open>now\<close> the one
  stored as the timestamp.
\<close>

definition register ::
  "'n RGBA \<Rightarrow> string \<Rightarrow> string \<Rightarrow> ColorType \<Rightarrow> string \<Rightarrow> int \<Rightarrow> int \<Rightarrow>
     'n ColorRegistry \<Rightarrow> 'n ColorRegistry" where
  "register orgb ohex thex ctype tid now_evict now reg =
     (let key = getKey orgb;
          reg1 = (if length (registry reg) \<ge> maxSize reg \<and> map_of (registry reg) key = None
                  then evictLRU now_evict reg else reg);
          entry = \<lparr>originalHex = ohex, originalRGB = orgb, transformedHex = thex,
                   colorType = ctype, themeId = tid, timestamp = now,
                   usageCount = (case map_of (registry reg1) key of
                                   Some old \<Rightarrow> usageCount old + 1
                                 | None \<Rightarrow> 1)\<rparr>;
          reg2 = reg1\<lparr>registry := AList.update key entry (registry reg1)\<rparr>;
          keys = (case map_of (themeRegistry reg2) tid of None \<Rightarrow> [] | Some ks \<Rightarrow> ks);
          reg3 = reg2\<lparr>themeRegistry := AList.update tid (set_add key keys) (themeRegistry reg2)\<rparr>
      in reg3\<lparr>stats := (stats reg3)\<lparr>registrations := registrations (stats reg3) + 1\<rparr>\<rparr>)"

definition count_miss :: "'n ColorRegistry \<Rightarrow> 'n ColorRegistry" where
  "count_miss reg = reg\<lparr>stats := (stats reg)\<lparr>misses := misses (stats reg) + 1\<rparr>\<rparr>"

definition getTransformed ::
  "'n RGBA \<Rightarrow> ColorType \<Rightarrow> string \<Rightarrow> int \<Rightarrow> 'n ColorRegistry \<Rightarrow>
     string option \<times> 'n ColorRegistry" where
  "getTransformed orgb ctype tid now reg =
     (let key = getKey orgb in
      case map_of (registry reg) key of
        None \<Rightarrow> (None, count_miss reg)
      | Some registered \<Rightarrow>
          if colorType registered \<noteq> ctype \<or> themeId registered \<noteq> tid
          then (None, count_miss reg)
          else (Some (transformedHex registered),
                reg\<lparr>registry :=
                      AList.update key
                        (registered\<lparr>timestamp := now,
                                    usageCount := usageCount registered + 1\<rparr>)
                        (registry reg),
                    stats := (stats reg)\<lparr>hits := hits (stats reg) + 1\<rparr>\<rparr>))"

definition clearTheme :: "string \<Rightarrow> 'n ColorRegistry \<Rightarrow> 'n ColorRegistry" where
  "clearTheme tid reg =
     (case map_of (themeRegistry reg) tid of
        None \<Rightarrow> reg
      | Some keys \<Rightarrow>
          reg\<lparr>registry := fold AList.delete keys (registry reg),
              themeRegistry := AList.delete tid (themeRegistry reg)\<rparr>)"

definition clear_registry :: "'n ColorRegistry \<Rightarrow> 'n ColorRegistry" where
  "clear_registry reg =
     reg\<lparr>registry := [], themeRegistry := [],
         stats := \<lparr>hits = 0, misses = 0, registrations = 0, evictions = 0\<rparr>\<rparr>"

text \<open>The states a registry can be in: built by the constructor and changed by its
  public methods only.\<close>

inductive reachable :: "'n ColorRegistry \<Rightarrow> bool" where
  reach_new: "reachable (new_ColorRegistry m)"
| reach_register:
    "reachable reg \<Longrightarrow> reachable (register orgb ohex thex ctype tid now_evict now reg)"
| reach_get: "reachable reg \<Longrightarrow> reachable (snd (getTransformed orgb ctype tid now reg))"
| reach_clearTheme: "reachable reg \<Longrightarrow> reachable (clearTheme tid reg)"
| reach_clear: "reachable reg \<Longrightarrow> reachable (clear_registry reg)"

text \<open>Every stored entry sits under the key of its own original colour.\<close>

definition keyed :: "'n ColorRegistry \<Rightarrow> bool" where
  "keyed reg = list_all (\<lambda>(k, e). getKey (originalRGB e) = k) (registry reg)"

section \<open>Theme profiles (\<open>types/theme.ts\<close>, \<open>services/themeProfiles.ts\<close>)\<close>

datatype ThemeId =
  Light | Dark | HighContrast | NightWarm
  | ColorblindProtanopia | ColorblindDeuteranopia | ColorblindTritanopia | ReducedMotion

text \<open>An optional numeric field is \<open>None\<close> when it is absent.\<close>

record ThemeFilters =
  brightness :: "real option"
  contrast :: "real option"
  hueRotate :: "real option"
  saturate :: "real option"
  sepia :: "real option"
  grayscale :: "real option"
  invert :: "real option"

record ThemePalette =
  pal_background :: string
  pal_text :: string
  pal_surface :: string
  pal_accent :: string

record ThemeProfile =
  theme_id :: ThemeId
  label :: string
  description :: string
  palette :: ThemePalette
  filters :: "ThemeFilters option"
  reducedMotion :: "bool option"
  minimumContrast :: "real option"

definition no_filters :: ThemeFilters where
  "no_filters =
     \<lparr>brightness = None, contrast = None, hueRotate = None, saturate = None, sepia = None,
      grayscale = None, invert = None\<rparr>"

text \<open>The first two entries of the catalog \<open>themeProfiles\<close>.\<close>

definition light_profile :: ThemeProfile where
  "light_profile =
     \<lparr>theme_id = Light, label = ''Light'',
      description = ''Bright background with dark text for well-lit environments.'',
      palette = \<lparr>pal_background = ''#dcdad7'', pal_text = ''#181a1b'',
                 pal_surface = ''#f5f5f5'', pal_accent = ''#2563eb''\<rparr>,
      filters = None, reducedMotion = None, minimumContrast = Some 4.5\<rparr>"

definition dark_profile :: ThemeProfile where
  "dark_profile =
     \<lparr>theme_id = Dark, label = ''Dark'',
      description = ''Dimmed background for low-light readability.'',
      palette = \<lparr>pal_background = ''#181a1b'', pal_text = ''#e8e6e3'',
                 pal_surface = ''#1c1e1f'', pal_accent = ''#60a5fa''\<rparr>,
      filters = Some (no_filters\<lparr>brightness := Some 1, contrast := Some 1\<rparr>),
      reducedMotion = None, minimumContrast = Some 4.5\<rparr>"

text \<open>The text of a theme id, as the registry stores it.\<close>

fun themeIdString :: "ThemeId \<Rightarrow> string" where
  "themeIdString Light = ''light''"
| "themeIdString Dark = ''dark''"
| "themeIdString HighContrast = ''high-contrast''"
| "themeIdString NightWarm = ''night-warm''"
| "themeIdString ColorblindProtanopia = ''colorblind-protanopia''"
| "themeIdString ColorblindDeuteranopia = ''colorblind-deuteranopia''"
| "themeIdString ColorblindTritanopia = ''colorblind-tritanopia''"
| "themeIdString ReducedMotion = ''reduced-motion''"

section \<open>Color matrices (\<open>services/colorMatrix.ts\<close>)\<close>

datatype MatrixType = GammaM | ContrastM | BrightnessM | CombinedM

text \<open>The nine values in row-major order and the tag; the free-text \<open>description\<close>,
  which nothing reads, is left out.\<close>

record ColorMatrix =
  mvalues :: "real list"
  mtype :: MatrixType

definition diagonal :: "real \<Rightarrow> real list" where
  "diagonal v = [v, 0, 0, 0, v, 0, 0, 0, v]"

definition IDENTITY_MATRIX :: ColorMatrix where
  "IDENTITY_MATRIX = \<lparr>mvalues = [1, 0, 0, 0, 1, 0, 0, 0, 1], mtype = CombinedM\<rparr>"

text \<open>\<open>applyColorMatrix\<close>; its local \<open>clamp\<close> is \<open>max 0 (min 1 v)\<close>.\<close>

definition unit_clamp :: "real \<Rightarrow> real" where
  "unit_clamp v = max 0 (min 1 v)"

definition applyColorMatrix :: "real RGBA \<Rightarrow> ColorMatrix \<Rightarrow> real RGBA" where
  "applyColorMatrix rgb matrix =
     (let r = rgb_r rgb / 255; g = rgb_g rgb / 255; b = rgb_b rgb / 255;
          m = mvalues matrix;
          rNew = m ! 0 * r + m ! 1 * g + m ! 2 * b;
          gNew = m ! 3 * r + m ! 4 * g + m ! 5 * b;
          bNew = m ! 6 * r + m ! 7 * g + m ! 8 * b
      in \<lparr>rgb_r = of_int (js_round (unit_clamp rNew * 255)),
          rgb_g = of_int (js_round (unit_clamp gNew * 255)),
          rgb_b = of_int (js_round (unit_clamp bNew * 255)),
          rgb_a = rgb_a rgb\<rparr>)"

text \<open>\<open>Math.pow(2, e)\<close> is the real power \<open>2 powr e\<close>.\<close>

definition createGammaMatrix :: "real \<Rightarrow> ColorMatrix" where
  "createGammaMatrix gamma =
     (let exponent = 1 / gamma; v = 2 powr (exponent - 1)
      in \<lparr>mvalues = diagonal v, mtype = GammaM\<rparr>)"

definition createContrastMatrix :: "real \<Rightarrow> ColorMatrix" where
  "createContrastMatrix c =
     (if c = 1 then IDENTITY_MATRIX else \<lparr>mvalues = diagonal c, mtype = ContrastM\<rparr>)"

definition createBrightnessMatrix :: "real \<Rightarrow> ColorMatrix" where
  "createBrightnessMatrix b =
     (if b = 1 then IDENTITY_MATRIX else \<lparr>mvalues = diagonal b, mtype = BrightnessM\<rparr>)"

text \<open>The double loop of \<open>composeMatrices\<close> over \<open>i\<close> and \<open>j\<close>, on matrices of
  nine values.\<close>

definition composeMatrices :: "ColorMatrix \<Rightarrow> ColorMatrix \<Rightarrow> ColorMatrix" where
  "composeMatrices matrixA matrixB =
     (let a = mvalues matrixA; b = mvalues matrixB
      in \<lparr>mvalues =
            map (\<lambda>(i, j). a ! (i * 3 + 0) * b ! (0 * 3 + j) + a ! (i * 3 + 1) * b ! (1 * 3 + j)
                           + a ! (i * 3 + 2) * b ! (2 * 3 + j))
              [(0, 0), (0, 1), (0, 2), (1, 0), (1, 1), (1, 2), (2, 0), (2, 1), (2, 2)],
          mtype = CombinedM\<rparr>)"

text \<open>A number is truthy when it is present and not zero.\<close>

definition truthy :: "real option \<Rightarrow> bool" where
  "truthy x = (case x of None \<Rightarrow> False | Some v \<Rightarrow> v \<noteq> 0)"

definition createFilterMatrix :: "ThemeProfile \<Rightarrow> bool \<Rightarrow> ColorMatrix" where
  "createFilterMatrix theme isDarkMode =
     (let fs = (case filters theme of None \<Rightarrow> no_filters | Some f \<Rightarrow> f);
          matrix0 = IDENTITY_MATRIX;
          matrix1 = (if truthy (brightness fs) \<and> brightness fs \<noteq> Some 1
                     then composeMatrices matrix0 (createBrightnessMatrix (the (brightness fs)))
                     else matrix0);
          matrix2 = (if truthy (contrast fs) \<and> contrast fs \<noteq> Some 1
                     then composeMatrices matrix1 (createContrastMatrix (the (contrast fs)))
                     else matrix1)
      in if isDarkMode then composeMatrices matrix2 (createGammaMatrix 2.0)
         else composeMatrices matrix2 (createGammaMatrix 2.2))"

text \<open>\<open>matrixCache\<close>; its key is the text of the theme id and of the flag.\<close>

type_synonym matrix_cache = "ThemeId \<times> bool \<rightharpoonup> ColorMatrix"

definition getCachedFilterMatrix ::
  "ThemeProfile \<Rightarrow> bool \<Rightarrow> matrix_cache \<Rightarrow> ColorMatrix \<times> matrix_cache" where
  "getCachedFilterMatrix theme isDarkMode matrixCache =
     (let key = (theme_id theme, isDarkMode)
      in case matrixCache key of
           Some m \<Rightarrow> (m, matrixCache)
         | None \<Rightarrow>
             (let matrix = createFilterMatrix theme isDarkMode
              in (matrix, matrixCache(key \<mapsto> matrix))))"

section \<open>Palette (\<open>services/palette.ts\<close>)\<close>

text \<open>\<open>colorPalettes\<close>: one map per color type, keyed by the printed channels.\<close>

type_synonym palettes = "ColorType \<rightharpoonup> (real rgb_key \<rightharpoonup> string)"

definition getRGBKey :: "real RGBA \<Rightarrow> real rgb_key" where
  "getRGBKey rgb = (rgb_r rgb, rgb_g rgb, rgb_b rgb, rgb_a rgb)"

definition getRegisteredColor :: "ColorType \<Rightarrow> real RGBA \<Rightarrow> palettes \<Rightarrow> string option" where
  "getRegisteredColor type rgb colorPalettes =
     (case colorPalettes type of
        None \<Rightarrow> None
      | Some pal \<Rightarrow> pal (getRGBKey rgb))"

definition registerColor :: "ColorType \<Rightarrow> real RGBA \<Rightarrow> string \<Rightarrow> palettes \<Rightarrow> palettes" where
  "registerColor type rgb v colorPalettes =
     (let pal = (case colorPalettes type of None \<Rightarrow> Map.empty | Some p \<Rightarrow> p)
      in colorPalettes(type \<mapsto> pal(getRGBKey rgb \<mapsto> v)))"

definition clearColorPalette :: "palettes \<Rightarrow> palettes" where
  "clearColorPalette colorPalettes = map_option (\<lambda>_. Map.empty) \<circ> colorPalettes"

definition disposePalette :: "palettes \<Rightarrow> palettes" where
  "disposePalette colorPalettes = Map.empty"

section \<open>Color transformation (\<open>services/colorTransform.ts\<close>)\<close>

definition MAX_BG_LIGHTNESS :: real where
  "MAX_BG_LIGHTNESS = 0.4"

definition MIN_FG_LIGHTNESS :: real where
  "MIN_FG_LIGHTNESS = 0.55"

text \<open>\<open>ThemeMode\<close> is \<open>ThemeId\<close> without \<open>reduced-motion\<close>; \<open>modeMap\<close> has no
  entry for that id, so it falls to the default.\<close>

type_synonym ThemeMode = ThemeId

definition detectThemeMode :: "ThemeProfile \<Rightarrow> ThemeMode" where
  "detectThemeMode theme = (if theme_id theme = ReducedMotion then Dark else theme_id theme)"

record ColorPoles =
  pole_background :: HSLA
  pole_text :: HSLA
  pole_surface :: HSLA

text \<open>
  \<open>getColorPoles\<close>. The argument \<open>parse\<close> stands for \<open>parseColor\<close> of
  \<open>utils/color.ts\<close> on a palette entry: the colour with its finite channels, or
  \<open>None\<close> for null. (The cache of \<open>parseColor\<close> only holds what the same function
  returned for the same text.)
\<close>

definition getColorPoles :: "(string \<Rightarrow> real RGBA option) \<Rightarrow> ThemeProfile \<Rightarrow> ColorPoles" where
  "getColorPoles parse theme =
     (let bgRgb = parse (pal_background (palette theme));
          textRgb = parse (pal_text (palette theme));
          surfaceRgb = parse (pal_surface (palette theme))
      in \<lparr>pole_background =
            (case bgRgb of Some c \<Rightarrow> rgbToHSL c
             | None \<Rightarrow> \<lparr>hsl_h = 0, hsl_s = 0, hsl_l = 0.1, hsl_a = 1\<rparr>),
          pole_text =
            (case textRgb of Some c \<Rightarrow> rgbToHSL c
             | None \<Rightarrow> \<lparr>hsl_h = 0, hsl_s = 0, hsl_l = 0.9, hsl_a = 1\<rparr>),
          pole_surface =
            (case surfaceRgb of Some c \<Rightarrow> rgbToHSL c
             | None \<Rightarrow> \<lparr>hsl_h = 0, hsl_s = 0, hsl_l = 0.2, hsl_a = 1\<rparr>)\<rparr>)"

definition isNeutralColor :: "real \<Rightarrow> real \<Rightarrow> real \<Rightarrow> bool \<Rightarrow> bool" where
  "isNeutralColor h s l isDarkColor =
     (if isDarkColor then l < 0.2 \<or> s < 0.12
      else (let isBlue = h > 200 \<and> h < 280 in s < 0.24 \<or> (l > 0.8 \<and> isBlue)))"

definition isYellowHue :: "real \<Rightarrow> bool" where
  "isYellowHue h = (h > 60 \<and> h < 180)"

definition adjustYellowHue :: "real \<Rightarrow> real \<Rightarrow> real \<times> real" where
  "adjustYellowHue h l =
     (let h' = (if h > 120 then scale_fin h 120 180 135 180
                else if h > 60 then scale_fin h 60 120 60 105
                else h);
          lNew = (if h' > 40 \<and> h' < 80 then l * 0.75 else l)
      in (h', lNew))"

definition isBlueHue :: "real \<Rightarrow> bool \<Rightarrow> bool" where
  "isBlueHue h isBackground =
     (if isBackground then h > 200 \<and> h < 280 else h > 205 \<and> h < 245)"

definition adjustBlueHue :: "real \<Rightarrow> real" where
  "adjustBlueHue h = (if h > 205 \<and> h < 245 then scale_fin h 205 245 205 220 else h)"

definition applyThemeFilters :: "HSLA \<Rightarrow> ThemeFilters option \<Rightarrow> HSLA" where
  "applyThemeFilters hsl fs_opt =
     (case fs_opt of
        None \<Rightarrow> hsl
      | Some fs \<Rightarrow>
          let h0 = hsl_h hsl; s0 = hsl_s hsl;
              h1 = (case hueRotate fs of
                      Some hr \<Rightarrow>
                        if hr \<noteq> 0
                        then (let hm = js_rem (h0 + hr) 360 in if hm < 0 then hm + 360 else hm)
                        else h0
                    | None \<Rightarrow> h0);
              s1 = (case saturate fs of
                      Some sa \<Rightarrow> if sa \<noteq> 1 then clamp_fin (s0 * sa) 0 1 else s0
                    | None \<Rightarrow> s0);
              s2 = (case grayscale fs of
                      Some gr \<Rightarrow> if gr \<noteq> 0 \<and> gr > 0 then s1 * (1 - gr) else s1
                    | None \<Rightarrow> s1);
              sepiaOn = (case sepia fs of Some sp \<Rightarrow> sp \<noteq> 0 \<and> sp > 0 | None \<Rightarrow> False);
              h2 = (if sepiaOn then h1 + (38 - h1) * the (sepia fs) else h1);
              s3 = (if sepiaOn then s2 + (0.5 - s2) * the (sepia fs) else s2)
          in \<lparr>hsl_h = h2, hsl_s = s3, hsl_l = hsl_l hsl, hsl_a = hsl_a hsl\<rparr>)"

definition transformBackgroundDarkMode :: "HSLA \<Rightarrow> ColorPoles \<Rightarrow> ThemeProfile \<Rightarrow> HSLA" where
  "transformBackgroundDarkMode hsl poles theme =
     (let h = hsl_h hsl; s = hsl_s hsl; l = hsl_l hsl; a = hsl_a hsl;
          br = (case filters theme of None \<Rightarrow> None | Some fs \<Rightarrow> brightness fs);
          maxBgLightness = (if truthy br then min MAX_BG_LIGHTNESS (the br * 0.4)
                            else MAX_BG_LIGHTNESS);
          isDark = l < 0.5;
          isNeutral = isNeutralColor h s l isDark
      in if isDark then
           (let l' = scale_fin l 0 0.5 0 maxBgLightness
            in if isNeutral
               then \<lparr>hsl_h = hsl_h (pole_background poles), hsl_s = hsl_s (pole_background poles),
                     hsl_l = l', hsl_a = a\<rparr>
               else if isBlueHue h True
               then \<lparr>hsl_h = adjustBlueHue h, hsl_s = s, hsl_l = l', hsl_a = a\<rparr>
               else \<lparr>hsl_h = h, hsl_s = s, hsl_l = l', hsl_a = a\<rparr>)
         else
           (let l' = scale_fin l 0.5 1 maxBgLightness (hsl_l (pole_background poles))
            in if isNeutral
               then \<lparr>hsl_h = hsl_h (pole_background poles), hsl_s = hsl_s (pole_background poles),
                     hsl_l = l', hsl_a = a\<rparr>
               else if isYellowHue h
               then (let (h', l'') = adjustYellowHue h l'
                     in \<lparr>hsl_h = h', hsl_s = s, hsl_l = l'', hsl_a = a\<rparr>)
               else if isBlueHue h True
               then \<lparr>hsl_h = adjustBlueHue h, hsl_s = s, hsl_l = l', hsl_a = a\<rparr>
               else \<lparr>hsl_h = h, hsl_s = s, hsl_l = l', hsl_a = a\<rparr>))"

definition transformBackgroundLightMode :: "HSLA \<Rightarrow> ColorPoles \<Rightarrow> ThemeProfile \<Rightarrow> HSLA" where
  "transformBackgroundLightMode hsl poles theme =
     (let h = hsl_h hsl; s = hsl_s hsl; l = hsl_l hsl; a = hsl_a hsl;
          isDark = l < 0.5;
          isNeutral = isNeutralColor h s l isDark
      in if isDark then
           (let l' = scale_fin l 0 0.5 (hsl_l (pole_text poles)) 0.3
            in if isNeutral
               then \<lparr>hsl_h = hsl_h (pole_text poles), hsl_s = hsl_s (pole_text poles),
                     hsl_l = l', hsl_a = a\<rparr>
               else \<lparr>hsl_h = h, hsl_s = s, hsl_l = l', hsl_a = a\<rparr>)
         else
           (let l' = scale_fin l 0.5 1 0.5 (hsl_l (pole_background poles))
            in if isNeutral
               then \<lparr>hsl_h = hsl_h (pole_background poles), hsl_s = hsl_s (pole_background poles),
                     hsl_l = l', hsl_a = a\<rparr>
               else \<lparr>hsl_h = h, hsl_s = s, hsl_l = l', hsl_a = a\<rparr>))"

definition transformForegroundDarkMode :: "HSLA \<Rightarrow> ColorPoles \<Rightarrow> ThemeProfile \<Rightarrow> HSLA" where
  "transformForegroundDarkMode hsl poles theme =
     (let h = hsl_h hsl; s = hsl_s hsl; l = hsl_l hsl; a = hsl_a hsl;
          minFgLightness = (if truthy (minimumContrast theme)
                            then max MIN_FG_LIGHTNESS (the (minimumContrast theme) / 10)
                            else MIN_FG_LIGHTNESS);
          isLight = l > 0.5;
          isNeutral = isNeutralColor h s l (\<not> isLight)
      in if isLight then
           (let l' = scale_fin l 0.5 1 minFgLightness (hsl_l (pole_text poles))
            in if isNeutral
               then \<lparr>hsl_h = hsl_h (pole_text poles), hsl_s = hsl_s (pole_text poles),
                     hsl_l = l', hsl_a = a\<rparr>
               else if isBlueHue h False
               then \<lparr>hsl_h = adjustBlueHue h, hsl_s = s, hsl_l = l', hsl_a = a\<rparr>
               else \<lparr>hsl_h = h, hsl_s = s, hsl_l = l', hsl_a = a\<rparr>)
         else
           (let l' = scale_fin l 0 0.5 (hsl_l (pole_text poles)) minFgLightness
            in if isNeutral
               then \<lparr>hsl_h = hsl_h (pole_text poles), hsl_s = hsl_s (pole_text poles),
                     hsl_l = l', hsl_a = a\<rparr>
               else if isBlueHue h False
               then \<lparr>hsl_h = adjustBlueHue h, hsl_s = s, hsl_l = min 1 (l' + 0.05), hsl_a = a\<rparr>
               else \<lparr>hsl_h = h, hsl_s = s, hsl_l = l', hsl_a = a\<rparr>))"

definition transformForegroundLightMode :: "HSLA \<Rightarrow> ColorPoles \<Rightarrow> ThemeProfile \<Rightarrow> HSLA" where
  "transformForegroundLightMode hsl poles theme =
     (let h = hsl_h hsl; s = hsl_s hsl; l = hsl_l hsl; a = hsl_a hsl;
          isLight = l > 0.5;
          isNeutral = isNeutralColor h s l (\<not> isLight);
          l' = (if isLight then scale_fin l 0.5 1 0.4 (hsl_l (pole_text poles))
                else scale_fin l 0 0.5 0.2 (hsl_l (pole_text poles)))
      in if isNeutral
         then \<lparr>hsl_h = hsl_h (pole_text poles), hsl_s = hsl_s (pole_text poles),
               hsl_l = l', hsl_a = a\<rparr>
         else \<lparr>hsl_h = h, hsl_s = s, hsl_l = l', hsl_a = a\<rparr>)"

definition transformBorderColor :: "HSLA \<Rightarrow> ColorPoles \<Rightarrow> bool \<Rightarrow> HSLA" where
  "transformBorderColor hsl poles isDarkMode =
     (let h = hsl_h hsl; s = hsl_s hsl; l = hsl_l hsl; a = hsl_a hsl;
          isDark = l < 0.5;
          isNeutral = isNeutralColor h s l isDark;
          pole = (if isDarkMode then pole_text poles else pole_background poles);
          l' = scale_fin l 0 1 (if isDarkMode then 0.2 else 0.4) (if isDarkMode then 0.5 else 0.7)
      in if isNeutral
         then \<lparr>hsl_h = hsl_h pole, hsl_s = hsl_s pole, hsl_l = l', hsl_a = a\<rparr>
         else \<lparr>hsl_h = h, hsl_s = s, hsl_l = l', hsl_a = a\<rparr>)"

text \<open>
  The \<open>HSLModifier\<close> passed to \<open>modifyColorWithCache\<close>: one of the four named
  functions, or the arrow function around \<open>transformBorderColor\<close>, which
  \<open>transformColor\<close> creates anew in each call.
\<close>

datatype HSLModifier =
  BackgroundDarkMode | BackgroundLightMode | ForegroundDarkMode | ForegroundLightMode
  | BorderClosure bool

fun apply_modifier :: "HSLModifier \<Rightarrow> HSLA \<Rightarrow> ColorPoles \<Rightarrow> ThemeProfile \<Rightarrow> HSLA" where
  "apply_modifier BackgroundDarkMode hsl poles theme = transformBackgroundDarkMode hsl poles theme"
| "apply_modifier BackgroundLightMode hsl poles theme = transformBackgroundLightMode hsl poles theme"
| "apply_modifier ForegroundDarkMode hsl poles theme = transformForegroundDarkMode hsl poles theme"
| "apply_modifier ForegroundLightMode hsl poles theme = transformForegroundLightMode hsl poles theme"
| "apply_modifier (BorderClosure isDarkMode) hsl poles theme = transformBorderColor hsl poles isDarkMode"

subsection \<open>\<open>rgbToHex\<close>\<close>

definition hex_char :: "nat \<Rightarrow> char" where
  "hex_char d = ''0123456789abcdef'' ! d"

fun hex_str :: "nat \<Rightarrow> string" where
  "hex_str n = (if n < 16 then [hex_char n] else hex_str (n div 16) @ [hex_char (n mod 16)])"

declare hex_str.simps [simp del]

text \<open>\<open>Math.round(n).toString(16)\<close>, padded to two digits.\<close>

definition toHex :: "real \<Rightarrow> string" where
  "toHex n =
     (let i = js_round n;
          hex = (if i < 0 then ''-'' @ hex_str (nat (- i)) else hex_str (nat i))
      in if length hex = 1 then ''0'' @ hex else hex)"

definition rgbToHex :: "real RGBA \<Rightarrow> string" where
  "rgbToHex rgb =
     (if rgb_a rgb < 1
      then ''#'' @ toHex (rgb_r rgb) @ toHex (rgb_g rgb) @ toHex (rgb_b rgb)
             @ toHex (rgb_a rgb * 255)
      else ''#'' @ toHex (rgb_r rgb) @ toHex (rgb_g rgb) @ toHex (rgb_b rgb))"

subsection \<open>The caches and \<open>transformColor\<close>\<close>

text \<open>\<open>getCacheId\<close>: the printed channels, theme id, brightness and contrast.\<close>

type_synonym cache_id = "real rgb_key \<times> ThemeId \<times> real option \<times> real option"

definition getCacheId :: "real RGBA \<Rightarrow> ThemeProfile \<Rightarrow> cache_id" where
  "getCacheId rgb theme =
     (getRGBKey rgb, theme_id theme,
      (case filters theme of None \<Rightarrow> None | Some fs \<Rightarrow> brightness fs),
      (case filters theme of None \<Rightarrow> None | Some fs \<Rightarrow> contrast fs))"

text \<open>
  The module state that \<open>transformColor\<close> reads and writes. \<open>colorModificationCache\<close>
  is keyed by the modifier function itself; a border closure is a new key in every call,
  so its entry is never found again and only the four named functions have an entry here.
\<close>

record TransformState =
  colorPalettes :: palettes
  colorModificationCache :: "HSLModifier \<times> cache_id \<rightharpoonup> string"
  matrixCache :: matrix_cache

text \<open>The colour before the matrix: poles, HSL, modifier, theme filters, back to RGB.\<close>

definition modifiedRGB ::
  "(string \<Rightarrow> real RGBA option) \<Rightarrow> real RGBA \<Rightarrow> ThemeProfile \<Rightarrow> HSLModifier \<Rightarrow> real RGBA" where
  "modifiedRGB parse rgb theme modifier =
     (let poles = getColorPoles parse theme;
          hsl = rgbToHSL rgb;
          modifiedHSL = applyThemeFilters (apply_modifier modifier hsl poles theme) (filters theme)
      in hslToRGB modifiedHSL)"

definition is_closure :: "HSLModifier \<Rightarrow> bool" where
  "is_closure modifier = (case modifier of BorderClosure _ \<Rightarrow> True | _ \<Rightarrow> False)"

definition modifyColorWithCache ::
  "(string \<Rightarrow> real RGBA option) \<Rightarrow> real RGBA \<Rightarrow> ThemeProfile \<Rightarrow> HSLModifier \<Rightarrow>
     TransformState \<Rightarrow> string \<times> TransformState" where
  "modifyColorWithCache parse rgb theme modifier st =
     (let cacheId = getCacheId rgb theme;
          cached = (if is_closure modifier then None
                    else colorModificationCache st (modifier, cacheId))
      in case cached of
           Some v \<Rightarrow> (v, st)
         | None \<Rightarrow>
             (let mrgb = modifiedRGB parse rgb theme modifier;
                  (matrix, mc) = getCachedFilterMatrix theme False (matrixCache st);
                  filteredRGB = applyColorMatrix mrgb matrix;
                  result = rgbToHex filteredRGB
              in (result,
                  st\<lparr>matrixCache := mc,
                     colorModificationCache :=
                       (if is_closure modifier then colorModificationCache st
                        else (colorModificationCache st)((modifier, cacheId) \<mapsto> result))\<rparr>)))"

definition select_modifier :: "ColorType \<Rightarrow> bool \<Rightarrow> HSLModifier" where
  "select_modifier ctype isDarkMode =
     (case ctype of
        Background \<Rightarrow> if isDarkMode then BackgroundDarkMode else BackgroundLightMode
      | Text \<Rightarrow> if isDarkMode then ForegroundDarkMode else ForegroundLightMode
      | Border \<Rightarrow> BorderClosure isDarkMode)"

text \<open>
  \<open>transformColor(rgb, colorType, theme, options)\<close>; the two optional fields of
  \<open>options\<close> are the arguments \<open>opt_mode\<close> and \<open>opt_shouldRegister\<close>. A registered
  value counts when it is a non-empty text.
\<close>

definition transformColor ::
  "(string \<Rightarrow> real RGBA option) \<Rightarrow> real RGBA \<Rightarrow> ColorType \<Rightarrow> ThemeProfile \<Rightarrow>
     ThemeMode option \<Rightarrow> bool option \<Rightarrow> TransformState \<Rightarrow> string \<times> TransformState" where
  "transformColor parse rgb ctype theme opt_mode opt_shouldRegister st =
     (let shouldRegister = (case opt_shouldRegister of None \<Rightarrow> True | Some b \<Rightarrow> b);
          registered = (if shouldRegister
                        then getRegisteredColor ctype rgb (colorPalettes st) else None)
      in if registered \<noteq> None \<and> registered \<noteq> Some []
         then (the registered, st)
         else
           (let mode = (case opt_mode of Some m \<Rightarrow> m | None \<Rightarrow> detectThemeMode theme);
                isDarkMode = (mode = Dark \<or> mode = NightWarm);
                modifier = select_modifier ctype isDarkMode;
                (result, st1) = modifyColorWithCache parse rgb theme modifier st
            in (result,
                if shouldRegister
                then st1\<lparr>colorPalettes := registerColor ctype rgb result (colorPalettes st1)\<rparr>
                else st1)))"

text \<open>\<open>clearColorCache\<close> of this module (\<open>transformCache\<close> and \<open>parseCache\<close>, which
  \<open>transformColor\<close> does not touch, are not part of the state).\<close>

definition clearColorCache :: "TransformState \<Rightarrow> TransformState" where
  "clearColorCache st =
     st\<lparr>colorModificationCache := Map.empty, matrixCache := Map.empty,
        colorPalettes := clearColorPalette (colorPalettes st)\<rparr>"

text \<open>\<open>parseColor\<close> on a palette entry that is a hex colour or a colour name, with
  finite channels: the \<open>parse\<close> argument for the profiles of the catalog.\<close>

definition parsePalette :: "string \<Rightarrow> real RGBA option" where
  "parsePalette s =
     (case fst (parseColor (\<lambda>_. None) (\<lambda>_. None) s Map.empty) of
        Some c \<Rightarrow>
          (case (rgb_r c, rgb_g c, rgb_b c, rgb_a c) of
             (Fin r, Fin g, Fin b, Fin a) \<Rightarrow> Some \<lparr>rgb_r = r, rgb_g = g, rgb_b = b, rgb_a = a\<rparr>
           | _ \<Rightarrow> None)
      | None \<Rightarrow> None)"

definition new_TransformState :: TransformState where
  "new_TransformState =
     \<lparr>colorPalettes = Map.empty, colorModificationCache = Map.empty, matrixCache = Map.empty\<rparr>"

subsection \<open>What \<open>transformColor\<close> computes when no cache answers\<close>

definition is_dark_mode :: "ThemeProfile \<Rightarrow> ThemeMode option \<Rightarrow> bool" where
  "is_dark_mode theme opt_mode =
     (let mode = (case opt_mode of Some m \<Rightarrow> m | None \<Rightarrow> detectThemeMode theme)
      in mode = Dark \<or> mode = NightWarm)"

definition uncached_result ::
  "(string \<Rightarrow> real RGBA option) \<Rightarrow> real RGBA \<Rightarrow> ThemeProfile \<Rightarrow> HSLModifier \<Rightarrow> string" where
  "uncached_result parse rgb theme modifier =
     rgbToHex (applyColorMatrix (modifiedRGB parse rgb theme modifier)
                 (createFilterMatrix theme False))"

definition pure_transform ::
  "(string \<Rightarrow> real RGBA option) \<Rightarrow> real RGBA \<Rightarrow> ColorType \<Rightarrow> ThemeProfile \<Rightarrow>
     ThemeMode option \<Rightarrow> string" where
  "pure_transform parse rgb ctype theme opt_mode =
     uncached_result parse rgb theme (select_modifier ctype (is_dark_mode theme opt_mode))"

definition key_rgba :: "real rgb_key \<Rightarrow> real RGBA" where
  "key_rgba k = (case k of (r, g, b, a) \<Rightarrow> \<lparr>rgb_r = r, rgb_g = g, rgb_b = b, rgb_a = a\<rparr>)"

text \<open>
  The caches agree with one theme profile and one mode option: every non-empty palette
  entry, every entry of the modification cache under this theme's cache id, and the
  cached light-mode matrix of this theme id hold what the uncached computation gives for
  this profile.
\<close>

definition coherent ::
  "(string \<Rightarrow> real RGBA option) \<Rightarrow> ThemeProfile \<Rightarrow> ThemeMode option \<Rightarrow> TransformState \<Rightarrow> bool" where
  "coherent parse theme opt_mode st =
     ((\<forall>ctype pal k v. colorPalettes st ctype = Some pal \<and> pal k = Some v \<and> v \<noteq> [] \<longrightarrow>
          v = pure_transform parse (key_rgba k) ctype theme opt_mode)
      \<and> (\<forall>modifier k v.
            colorModificationCache st (modifier, getCacheId (key_rgba k) theme) = Some v \<longrightarrow>
            v = uncached_result parse (key_rgba k) theme modifier)
      \<and> (\<forall>m. matrixCache st (theme_id theme, False) = Some m \<longrightarrow>
            m = createFilterMatrix theme False))"

text \<open>The test at the head of \<open>transformColor\<close>: the palette is consulted and holds
  a non-empty value.\<close>

definition palette_answers :: "ColorType \<Rightarrow> real RGBA \<Rightarrow> bool option \<Rightarrow> TransformState \<Rightarrow> bool" where
  "palette_answers ctype rgb opt_sr st =
     (let registered = (if (case opt_sr of None \<Rightarrow> True | Some b \<Rightarrow> b)
                        then getRegisteredColor ctype rgb (colorPalettes st) else None)
      in registered \<noteq> None \<and> registered \<noteq> Some [])"

text \<open>The brightness and contrast part of \<open>createFilterMatrix\<close>, before the gamma
  matrix is composed onto it.\<close>

definition brightness_contrast_matrix :: "ThemeProfile \<Rightarrow> ColorMatrix" where
  "brightness_contrast_matrix theme =
     (let fs = (case filters theme of None \<Rightarrow> no_filters | Some f \<Rightarrow> f);
          matrix1 = (if truthy (brightness fs) \<and> brightness fs \<noteq> Some 1
                     then composeMatrices IDENTITY_MATRIX (createBrightnessMatrix (the (brightness fs)))
                     else IDENTITY_MATRIX)
      in if truthy (contrast fs) \<and> contrast fs \<noteq> Some 1
         then composeMatrices matrix1 (createContrastMatrix (the (contrast fs)))
         else matrix1)"

definition white :: "real RGBA" where
  "white = \<lparr>rgb_r = 255, rgb_g = 255, rgb_b = 255, rgb_a = 1\<rparr>"

text \<open>A sequence of \<open>transformColor\<close> calls for one theme profile and one mode option,
  each with its colour, color type and \<open>shouldRegister\<close> option; the results in order.\<close>

fun transform_calls ::
  "(string \<Rightarrow> real RGBA option) \<Rightarrow> ThemeProfile \<Rightarrow> ThemeMode option \<Rightarrow>
     (real RGBA \<times> ColorType \<times> bool option) list \<Rightarrow> TransformState \<Rightarrow>
     string list \<times> TransformState" where
  "transform_calls parse theme opt_mode [] st = ([], st)"
| "transform_calls parse theme opt_mode ((rgb, ctype, opt_sr) # calls) st =
     (let r = transformColor parse rgb ctype theme opt_mode opt_sr st;
          rs = transform_calls parse theme opt_mode calls (snd r)
      in (fst r # fst rs, snd rs))"

section \<open>Dynamic theme engine (\<open>services/dynamicThemeEngine.ts\<close>): theme and registry\<close>

text \<open>
  The fields of \<open>DynamicThemeEngine\<close> that decide what happens to the global color
  registry, and the registry itself. The style elements, observers and tracking sets of
  the engine are not modelled.
\<close>

record Engine =
  eng_theme :: "ThemeProfile option"
  isDestroyed :: bool
  observersStarted :: bool
  inlineObservationEnabled :: bool
  globalColorRegistry :: "number ColorRegistry"

text \<open>
  \<open>transformColorWithRegistry\<close>. \<open>parse\<close> stands for \<open>parseColor\<close> and
  \<open>transform\<close> for \<open>transformColor\<close>, which after the flush at the head of
  \<open>updateTheme\<close> is a function of its arguments while the theme stays the same;
  \<open>now\<close> is the clock during the call.
\<close>

definition transformColorWithRegistry ::
  "(string \<Rightarrow> number RGBA option) \<Rightarrow> (number RGBA \<Rightarrow> ColorType \<Rightarrow> ThemeProfile \<Rightarrow> string) \<Rightarrow>
     string \<Rightarrow> ColorType \<Rightarrow> int \<Rightarrow> Engine \<Rightarrow> string option \<times> Engine" where
  "transformColorWithRegistry parse transform colorValue ctype now eng =
     (case eng_theme eng of
        None \<Rightarrow> (None, eng)
      | Some theme \<Rightarrow>
          (case parse colorValue of
             None \<Rightarrow> (None, eng)
           | Some rgb \<Rightarrow>
               let tid = themeIdString (theme_id theme);
                   looked = getTransformed rgb ctype tid now (globalColorRegistry eng)
               in if fst looked \<noteq> None \<and> fst looked \<noteq> Some []
                  then (fst looked, eng\<lparr>globalColorRegistry := snd looked\<rparr>)
                  else
                    let transformed = transform rgb ctype theme
                    in (Some transformed,
                        eng\<lparr>globalColorRegistry :=
                              register rgb colorValue transformed ctype tid now now (snd looked)\<rparr>)))"

text \<open>
  \<open>reprocessAllInlineStyles\<close>, as far as the registry goes: the document is given by
  the colour declarations of its inline styles that \<open>processInlineStyle\<close> hands to
  \<open>transformColorWithRegistry\<close>, in order, each with its color type and the clock.
\<close>

fun reprocessAllInlineStyles ::
  "(string \<Rightarrow> number RGBA option) \<Rightarrow> (number RGBA \<Rightarrow> ColorType \<Rightarrow> ThemeProfile \<Rightarrow> string) \<Rightarrow>
     (string \<times> ColorType \<times> int) list \<Rightarrow> Engine \<Rightarrow> Engine" where
  "reprocessAllInlineStyles parse transform [] eng = eng"
| "reprocessAllInlineStyles parse transform ((colorValue, ctype, now) # rest) eng =
     reprocessAllInlineStyles parse transform rest
       (snd (transformColorWithRegistry parse transform colorValue ctype now eng))"

text \<open>
  \<open>updateTheme(theme, options)\<close>: the new theme is stored first, then (after the flush of
  the color caches and the observers, which do not touch the registry)
  \<open>globalColorRegistry.clearTheme(theme.id)\<close> runs on the argument \<open>theme\<close>, and the
  inline styles are processed again. The base styles and the stylesheets go through
  \<open>transformColor\<close> and \<open>transformCSSColor\<close> only, never through the registry.
\<close>

definition updateTheme ::
  "(string \<Rightarrow> number RGBA option) \<Rightarrow> (number RGBA \<Rightarrow> ColorType \<Rightarrow> ThemeProfile \<Rightarrow> string) \<Rightarrow>
     ThemeProfile \<Rightarrow> bool option \<Rightarrow> (string \<times> ColorType \<times> int) list \<Rightarrow> Engine \<Rightarrow> Engine" where
  "updateTheme parse transform theme enableInlineObservation document eng =
     (if isDestroyed eng then eng
      else
        let e1 = eng\<lparr>eng_theme := Some theme,
                    inlineObservationEnabled := (enableInlineObservation = Some True),
                    observersStarted := True\<rparr>;
            e2 = e1\<lparr>globalColorRegistry :=
                      clearTheme (themeIdString (theme_id theme)) (globalColorRegistry e1)\<rparr>
        in reprocessAllInlineStyles parse transform document e2)"

text \<open>\<open>clear()\<close>, which clears the registry for the theme the engine holds.\<close>

definition clear_engine :: "Engine \<Rightarrow> Engine" where
  "clear_engine eng =
     (if isDestroyed eng then eng
      else
        let e1 = eng\<lparr>inlineObservationEnabled := False\<rparr>;
            e2 = (case eng_theme e1 of
                    None \<Rightarrow> e1
                  | Some theme \<Rightarrow>
                      e1\<lparr>globalColorRegistry :=
                           clearTheme (themeIdString (theme_id theme)) (globalColorRegistry e1)\<rparr>)
        in e2\<lparr>eng_theme := None\<rparr>)"

section \<open>Loop guard of the dynamic theme engine (\<open>services/dynamicThemeEngine.ts\<close>)\<close>

definition LOOP_DETECTION_THRESHOLD :: int where
  "LOOP_DETECTION_THRESHOLD = 500"

definition MAX_LOOP_CYCLES :: int where
  "MAX_LOOP_CYCLES = 4"

text \<open>
  The three module-level \<open>WeakMap\<close>s keyed by DOM node. Times are the milliseconds of
  \<open>Date.now()\<close>, read once in each call and passed as \<open>now\<close>.
\<close>

record 'node LoopGuard =
  elementsLastChanges :: "'node \<rightharpoonup> int"
  elementsLoopCycles :: "'node \<rightharpoonup> int"
  loopWarnedRecently :: "'node \<rightharpoonup> int"

definition shouldSkipLoopElement ::
  "'node \<Rightarrow> int \<Rightarrow> 'node LoopGuard \<Rightarrow> bool \<times> 'node LoopGuard" where
  "shouldSkipLoopElement element now s =
     (case elementsLastChanges s element of
        None \<Rightarrow> (False, s\<lparr>elementsLastChanges := (elementsLastChanges s)(element \<mapsto> now)\<rparr>)
      | Some lastChange \<Rightarrow>
          if now - lastChange < LOOP_DETECTION_THRESHOLD then
            (let cycles = (case elementsLoopCycles s element of None \<Rightarrow> 0 | Some c \<Rightarrow> c);
                 s1 = s\<lparr>elementsLoopCycles := (elementsLoopCycles s)(element \<mapsto> cycles + 1)\<rparr>
             in if cycles \<ge> MAX_LOOP_CYCLES then
                  (let lastWarn = (case loopWarnedRecently s1 element of None \<Rightarrow> 0 | Some w \<Rightarrow> w)
                   in (True,
                       if now - lastWarn > 5000
                       then s1\<lparr>loopWarnedRecently := (loopWarnedRecently s1)(element \<mapsto> now)\<rparr>
                       else s1))
                else (False, s1\<lparr>elementsLastChanges := (elementsLastChanges s1)(element \<mapsto> now)\<rparr>))
          else
            (False,
             s\<lparr>elementsLoopCycles := (elementsLoopCycles s)(element \<mapsto> 0),
               elementsLastChanges := (elementsLastChanges s)(element \<mapsto> now)\<rparr>))"

text \<open>
  The mutations of one node, in order: \<open>processInlineStyle\<close> asks the guard once for
  each, at the time given. The result lists, for each mutation, whether it was skipped.
\<close>

fun mutations :: "'node \<Rightarrow> int list \<Rightarrow> 'node LoopGuard \<Rightarrow> bool list \<times> 'node LoopGuard" where
  "mutations element [] s = ([], s)"
| "mutations element (t # ts) s =
     (let (skip, s1) = shouldSkipLoopElement element t s;
          (skips, s2) = mutations element ts s1
      in (skip # skips, s2))"

definition new_LoopGuard :: "'node LoopGuard" where
  "new_LoopGuard =
     \<lparr>elementsLastChanges = Map.empty, elementsLoopCycles = Map.empty,
      loopWarnedRecently = Map.empty\<rparr>"

text \<open>The cycle counter as the guard reads it: \<open>elementsLoopCycles.get(element) ?? 0\<close>.\<close>

definition cyc :: "'node LoopGuard \<Rightarrow> 'node \<Rightarrow> int" where
  "cyc s e = (case elementsLoopCycles s e of None \<Rightarrow> 0 | Some c \<Rightarrow> c)"


section \<open>Properties of the color registry\<close>

lemma keyed_new: "keyed (new_ColorRegistry m)"
  by (simp add: keyed_def new_ColorRegistry_def)

lemma list_all_delete: "list_all P al \<Longrightarrow> list_all P (AList.delete k al)"
  by (induction al) (auto simp: AList.delete_eq)

lemma list_all_update:
  "list_all P al \<Longrightarrow> P (k, v) \<Longrightarrow> list_all P (AList.update k v al)"
  by (induction al) auto

lemma list_all_fold_delete: "list_all P al \<Longrightarrow> list_all P (fold AList.delete ks al)"
  by (induction ks arbitrary: al) (auto simp: list_all_delete)

lemma distinct_fold_delete:
  "distinct (map fst al) \<Longrightarrow> distinct (map fst (fold AList.delete ks al))"
  by (induction ks arbitrary: al) (auto simp: distinct_delete)

lemma keyed_evictLRU: "keyed reg \<Longrightarrow> keyed (evictLRU now reg)"
  by (auto simp: keyed_def evictLRU_def list_all_delete split: option.splits)

lemma distinct_evictLRU:
  "distinct (map fst (registry reg)) \<Longrightarrow> distinct (map fst (registry (evictLRU now reg)))"
  by (auto simp: evictLRU_def distinct_delete split: option.splits)

lemma keyed_register: "keyed reg \<Longrightarrow> keyed (register orgb ohex thex ctype tid ne now reg)"
  using keyed_evictLRU [of reg ne]
  by (auto simp: keyed_def register_def Let_def list_all_update)

lemma distinct_register:
  "distinct (map fst (registry reg)) \<Longrightarrow>
   distinct (map fst (registry (register orgb ohex thex ctype tid ne now reg)))"
  using distinct_evictLRU [of reg ne]
  by (auto simp: register_def Let_def distinct_update)

lemma keyed_lookup:
  "keyed reg \<Longrightarrow> map_of (registry reg) k = Some e \<Longrightarrow> getKey (originalRGB e) = k"
  by (auto simp: keyed_def list_all_iff dest!: map_of_SomeD)

lemma keyed_getTransformed:
  assumes "keyed reg"
  shows "keyed (snd (getTransformed q ctype tid now reg))"
proof (cases "map_of (registry reg) (getKey q)")
  case None
  then show ?thesis using assms
    by (simp add: getTransformed_def count_miss_def keyed_def)
next
  case (Some e)
  have k: "getKey (originalRGB e) = getKey q"
    using keyed_lookup [OF assms Some] .
  have "list_all (\<lambda>(k, e). getKey (originalRGB e) = k)
          (AList.update (getKey q) (e\<lparr>timestamp := now, usageCount := usageCount e + 1\<rparr>)
             (registry reg))"
    using assms k by (intro list_all_update) (simp_all add: keyed_def)
  then show ?thesis using assms Some
    by (simp add: getTransformed_def count_miss_def keyed_def Let_def)
qed

lemma distinct_getTransformed:
  "distinct (map fst (registry reg)) \<Longrightarrow>
   distinct (map fst (registry (snd (getTransformed q ctype tid now reg))))"
  by (auto simp: getTransformed_def count_miss_def Let_def distinct_update split: option.splits)

lemma keyed_clearTheme: "keyed reg \<Longrightarrow> keyed (clearTheme tid reg)"
  by (auto simp: keyed_def clearTheme_def list_all_fold_delete split: option.splits)

lemma distinct_clearTheme:
  "distinct (map fst (registry reg)) \<Longrightarrow> distinct (map fst (registry (clearTheme tid reg)))"
  by (auto simp: clearTheme_def distinct_fold_delete split: option.splits)

lemma reachable_keyed: "reachable reg \<Longrightarrow> keyed reg"
proof (induction rule: reachable.induct)
  case (reach_new m)
  show ?case by (rule keyed_new)
next
  case (reach_clear reg)
  show ?case by (simp add: keyed_def clear_registry_def)
qed (auto intro: keyed_register keyed_getTransformed keyed_clearTheme)

lemma reachable_distinct: "reachable reg \<Longrightarrow> distinct (map fst (registry reg))"
proof (induction rule: reachable.induct)
  case (reach_new m)
  show ?case by (simp add: new_ColorRegistry_def)
next
  case (reach_clear reg)
  show ?case by (simp add: clear_registry_def)
qed (auto intro: distinct_register distinct_getTransformed distinct_clearTheme)

lemma getTransformed_hit:
  "getTransformed q ctype tid now reg = (Some hex, reg') \<Longrightarrow>
   \<exists>e. map_of (registry reg) (getKey q) = Some e \<and> colorType e = ctype \<and> themeId e = tid
       \<and> transformedHex e = hex"
  by (auto simp: getTransformed_def Let_def split: option.splits if_splits)

lemma getKey_inj: "getKey (x :: 'n RGBA) = getKey y \<Longrightarrow> x = y"
  by (cases x, cases y) (simp add: getKey_def)

lemma register_lookup:
  "map_of (registry (register orgb ohex thex ctype tid ne now reg)) (getKey orgb) = Some e \<Longrightarrow>
   colorType e = ctype \<and> themeId e = tid \<and> transformedHex e = thex \<and> originalRGB e = orgb"
  by (auto simp: register_def Let_def update_conv')

lemma register_lookup_ex:
  "\<exists>e. map_of (registry (register orgb ohex thex ctype tid ne now reg)) (getKey orgb) = Some e"
  by (auto simp: register_def Let_def update_conv')

lemma getTransformed_after_register:
  "fst (getTransformed orgb ctype' tid' t (register orgb ohex thex ctype tid ne now reg)) =
     (if ctype' = ctype \<and> tid' = tid then Some thex else None)"
proof -
  obtain e where e: "map_of (registry (register orgb ohex thex ctype tid ne now reg)) (getKey orgb) = Some e"
    using register_lookup_ex by blast
  from register_lookup [OF e] show ?thesis
    by (simp add: getTransformed_def Let_def e)
qed


lemma filter_key_distinct:
  "distinct (map fst al) \<Longrightarrow> map_of al k = Some v \<Longrightarrow> filter (\<lambda>p. fst p = k) al = [(k, v)]"
proof (induction al)
  case Nil
  then show ?case by simp
next
  case (Cons p al)
  show ?case
  proof (cases "fst p = k")
    case True
    have "filter (\<lambda>p. fst p = k) al = []"
      using Cons.prems(1) True by (auto simp: filter_empty_conv image_iff)
    then show ?thesis using True Cons.prems(2) by (cases p) auto
  next
    case False
    then show ?thesis using Cons by (cases p) auto
  qed
qed

text \<open>
  C4: a lookup in a reachable registry returns a value only from a stored entry whose
  original colour is exactly the queried RGBA quadruple and whose role and theme id are the
  queried ones; and once RGBA (10,10,10,1) is registered as background for theme "dark", in
  any registry, the queries text/"dark" and background/"light" for it return null.
\<close>

theorem registry_hit_needs_exact_context:
  assumes "reachable reg"
  shows "(getTransformed q ctype tid now reg = (Some hex, reg') \<longrightarrow>
            (\<exists>e. map_of (registry reg) (getKey q) = Some e \<and> originalRGB e = q \<and>
                 colorType e = ctype \<and> themeId e = tid \<and> transformedHex e = hex))
       \<and> fst (getTransformed \<lparr>rgb_r = 10::real, rgb_g = 10, rgb_b = 10, rgb_a = 1\<rparr> Text ''dark'' t
               (register \<lparr>rgb_r = 10, rgb_g = 10, rgb_b = 10, rgb_a = 1\<rparr> ohex thex
                  Background ''dark'' ne n reg0)) = None
       \<and> fst (getTransformed \<lparr>rgb_r = 10::real, rgb_g = 10, rgb_b = 10, rgb_a = 1\<rparr> Background ''light'' t
               (register \<lparr>rgb_r = 10, rgb_g = 10, rgb_b = 10, rgb_a = 1\<rparr> ohex thex
                  Background ''dark'' ne n reg0)) = None"
proof (intro conjI impI)
  assume hit: "getTransformed q ctype tid now reg = (Some hex, reg')"
  from getTransformed_hit [OF hit] obtain e where
    e: "map_of (registry reg) (getKey q) = Some e" "colorType e = ctype" "themeId e = tid"
       "transformedHex e = hex"
    by blast
  have "getKey (originalRGB e) = getKey q"
    using keyed_lookup [OF reachable_keyed [OF assms] e(1)] .
  then have "originalRGB e = q" by (rule getKey_inj)
  with e show "\<exists>e. map_of (registry reg) (getKey q) = Some e \<and> originalRGB e = q \<and>
                 colorType e = ctype \<and> themeId e = tid \<and> transformedHex e = hex"
    by blast
qed (simp_all add: getTransformed_after_register)

theorem registry_hit_needs_exact_context_witness:
  "reachable (register \<lparr>rgb_r = 10::real, rgb_g = 10, rgb_b = 10, rgb_a = 1\<rparr> ''#0a0a0a'' ''#1b1b1b''
                Background ''dark'' 7 7 (new_ColorRegistry 1000))
   \<and> fst (getTransformed \<lparr>rgb_r = 10::real, rgb_g = 10, rgb_b = 10, rgb_a = 1\<rparr> Background ''dark'' 9
           (register \<lparr>rgb_r = 10::real, rgb_g = 10, rgb_b = 10, rgb_a = 1\<rparr> ''#0a0a0a'' ''#1b1b1b''
                Background ''dark'' 7 7 (new_ColorRegistry 1000))) = Some ''#1b1b1b''
   \<and> (\<exists>e. map_of (registry (register \<lparr>rgb_r = 10::real, rgb_g = 10, rgb_b = 10, rgb_a = 1\<rparr>
                ''#0a0a0a'' ''#1b1b1b'' Background ''dark'' 7 7 (new_ColorRegistry 1000)))
             (getKey \<lparr>rgb_r = 10::real, rgb_g = 10, rgb_b = 10, rgb_a = 1\<rparr>) = Some e
          \<and> originalRGB e = \<lparr>rgb_r = 10, rgb_g = 10, rgb_b = 10, rgb_a = 1\<rparr>
          \<and> colorType e = Background \<and> themeId e = ''dark'' \<and> transformedHex e = ''#1b1b1b'')"
proof -
  let ?c = "\<lparr>rgb_r = 10::real, rgb_g = 10, rgb_b = 10, rgb_a = 1\<rparr>"
  let ?R = "register ?c ''#0a0a0a'' ''#1b1b1b'' Background ''dark'' 7 7 (new_ColorRegistry 1000)"
  have r: "reachable ?R" by (rule reach_register [OF reach_new])
  have g: "fst (getTransformed ?c Background ''dark'' 9 ?R) = Some ''#1b1b1b''"
    by (simp add: getTransformed_after_register)
  then have "getTransformed ?c Background ''dark'' 9 ?R =
               (Some ''#1b1b1b'', snd (getTransformed ?c Background ''dark'' 9 ?R))"
    by (metis prod.collapse)
  with registry_hit_needs_exact_context [OF r, of ?c Background "''dark''" 9 "''#1b1b1b''"]
  show ?thesis using r g by blast
qed

text \<open>
  C10: a reachable registry holds at most one entry per RGBA key; registering the same RGBA
  under role A and theme X and then under a different pair (B, Y) leaves exactly one entry
  for the key, the later one, so the query for (A, X) returns null.
\<close>

theorem registry_single_entry_per_rgba:
  assumes "reachable reg" and "(ctypeB, tidB) \<noteq> (ctypeA, tidA)"
  shows "distinct (map fst (registry reg))
       \<and> (let reg1 = register c ohexA thexA ctypeA tidA ne1 n1 reg;
              reg2 = register c ohexB thexB ctypeB tidB ne2 n2 reg1
          in fst (getTransformed c ctypeA tidA t reg2) = None
           \<and> fst (getTransformed c ctypeB tidB t reg2) = Some thexB
           \<and> length (filter (\<lambda>p. fst p = getKey c) (registry reg2)) = 1)"
proof -
  let ?reg1 = "register c ohexA thexA ctypeA tidA ne1 n1 reg"
  let ?reg2 = "register c ohexB thexB ctypeB tidB ne2 n2 ?reg1"
  have d: "distinct (map fst (registry reg))"
    using assms(1) by (rule reachable_distinct)
  have "reachable ?reg2"
    by (intro reach_register assms(1))
  then have d2: "distinct (map fst (registry ?reg2))"
    by (rule reachable_distinct)
  obtain e where e: "map_of (registry ?reg2) (getKey c) = Some e"
    using register_lookup_ex by blast
  have one: "length (filter (\<lambda>p. fst p = getKey c) (registry ?reg2)) = 1"
    using filter_key_distinct [OF d2 e] by simp
  have miss: "fst (getTransformed c ctypeA tidA t ?reg2) = None"
    using assms(2) by (auto simp add: getTransformed_after_register)
  have hit: "fst (getTransformed c ctypeB tidB t ?reg2) = Some thexB"
    by (simp add: getTransformed_after_register)
  show ?thesis using d one miss hit by (simp add: Let_def)
qed

theorem registry_single_entry_per_rgba_witness:
  "reachable (new_ColorRegistry 1000 :: real ColorRegistry)
   \<and> (Text, ''light'') \<noteq> (Background, ''dark'')
   \<and> fst (getTransformed \<lparr>rgb_r = 10::real, rgb_g = 10, rgb_b = 10, rgb_a = 1\<rparr> Background ''dark'' 3
        (register \<lparr>rgb_r = 10, rgb_g = 10, rgb_b = 10, rgb_a = 1\<rparr> ''#0a0a0a'' ''#2c2c2c'' Text ''light'' 2 2
          (register \<lparr>rgb_r = 10, rgb_g = 10, rgb_b = 10, rgb_a = 1\<rparr> ''#0a0a0a'' ''#1b1b1b'' Background ''dark'' 1 1
             (new_ColorRegistry 1000)))) = None"
proof -
  have r: "reachable (new_ColorRegistry 1000 :: real ColorRegistry)" by (rule reach_new)
  have n: "(Text, ''light'') \<noteq> (Background, ''dark'')" by simp
  show ?thesis
    using registry_single_entry_per_rgba [OF r n,
        of "\<lparr>rgb_r = 10, rgb_g = 10, rgb_b = 10, rgb_a = 1\<rparr>" "''#0a0a0a''" "''#1b1b1b''" 1 1
           "''#0a0a0a''" "''#2c2c2c''" 2 2 3] r
    by (simp add: Let_def)
qed

section \<open>Properties of the loop guard\<close>

lemma skip_lastChange_le:
  assumes "case elementsLastChanges s e of None \<Rightarrow> True | Some l \<Rightarrow> l \<le> t"
  shows "\<exists>l. elementsLastChanges (snd (shouldSkipLoopElement e t s)) e = Some l \<and> l \<le> t"
  using assms
  by (auto simp: shouldSkipLoopElement_def Let_def split: option.splits)

lemma mutations_Cons:
  "fst (mutations e (t # ts) s) =
     fst (shouldSkipLoopElement e t s) # fst (mutations e ts (snd (shouldSkipLoopElement e t s)))"
  "snd (mutations e (t # ts) s) = snd (mutations e ts (snd (shouldSkipLoopElement e t s)))"
  by (simp_all add: split_def Let_def)

lemma mutations_lastChange_le:
  fixes s :: "'node LoopGuard" and ts :: "int list"
  assumes "ts \<noteq> []" and "sorted ts"
    and "case elementsLastChanges s e of None \<Rightarrow> True | Some l \<Rightarrow> l \<le> hd ts"
  shows "\<exists>l. elementsLastChanges (snd (mutations e ts s)) e = Some l \<and> l \<le> last ts"
  using assms
proof (induction ts arbitrary: s)
  case Nil
  then show ?case by simp
next
  case (Cons t ts)
  have "case elementsLastChanges s e of None \<Rightarrow> True | Some l \<Rightarrow> l \<le> t"
    using Cons.prems(3) by (simp split: option.splits)
  from skip_lastChange_le [OF this]
  obtain l where l: "elementsLastChanges (snd (shouldSkipLoopElement e t s)) e = Some l" "l \<le> t"
    by blast
  show ?case
  proof (cases "ts = []")
    case True
    then show ?thesis using l by (simp add: split_def Let_def)
  next
    case False
    have "\<exists>l. elementsLastChanges (snd (mutations e ts (snd (shouldSkipLoopElement e t s)))) e = Some l
            \<and> l \<le> last ts"
    proof (rule Cons.IH)
      show "ts \<noteq> []" using False .
      show "sorted ts" using Cons.prems(2) by simp
      have "t \<le> hd ts" using False Cons.prems(2) by (cases ts) auto
      then show "case elementsLastChanges (snd (shouldSkipLoopElement e t s)) e of None \<Rightarrow> True
            | Some l \<Rightarrow> l \<le> hd ts"
        using l by (simp split: option.splits)
    qed
    then show ?thesis using False by (simp add: split_def Let_def)
  qed
qed


lemma quiet_resets:
  assumes "elementsLastChanges s e = Some l" "500 \<le> now - l"
  shows "shouldSkipLoopElement e now s =
           (False, s\<lparr>elementsLoopCycles := (elementsLoopCycles s)(e \<mapsto> 0),
                     elementsLastChanges := (elementsLastChanges s)(e \<mapsto> now)\<rparr>)"
  using assms by (simp add: shouldSkipLoopElement_def LOOP_DETECTION_THRESHOLD_def)

lemma step_first:
  assumes "case elementsLastChanges s e of None \<Rightarrow> elementsLoopCycles s e = None
           | Some l \<Rightarrow> 500 \<le> t - l"
  shows "fst (shouldSkipLoopElement e t s) = False
       \<and> elementsLastChanges (snd (shouldSkipLoopElement e t s)) e = Some t
       \<and> cyc (snd (shouldSkipLoopElement e t s)) e = 0"
  using assms
  by (auto simp: shouldSkipLoopElement_def cyc_def LOOP_DETECTION_THRESHOLD_def
      split: option.splits)

lemma step_count:
  assumes "elementsLastChanges s e = Some l" "t - l < 500" "cyc s e < 4"
  shows "fst (shouldSkipLoopElement e t s) = False
       \<and> elementsLastChanges (snd (shouldSkipLoopElement e t s)) e = Some t
       \<and> cyc (snd (shouldSkipLoopElement e t s)) e = cyc s e + 1"
  using assms
  by (auto simp: shouldSkipLoopElement_def cyc_def LOOP_DETECTION_THRESHOLD_def
      MAX_LOOP_CYCLES_def Let_def split: option.splits)

lemma step_skip:
  assumes "elementsLastChanges s e = Some l" "t - l < 500" "4 \<le> cyc s e"
  shows "fst (shouldSkipLoopElement e t s) = True"
  using assms
  by (auto simp: shouldSkipLoopElement_def cyc_def LOOP_DETECTION_THRESHOLD_def
      MAX_LOOP_CYCLES_def Let_def split: option.splits)

lemma burst_six:
  assumes start: "case elementsLastChanges s e of None \<Rightarrow> elementsLoopCycles s e = None
                  | Some l \<Rightarrow> 500 \<le> t1 - l"
    and gaps: "t2 - t1 < 500" "t3 - t2 < 500" "t4 - t3 < 500" "t5 - t4 < 500" "t6 - t5 < 500"
  shows "fst (mutations e [t1, t2, t3, t4, t5, t6] s) = [False, False, False, False, False, True]"
proof -
  define s1 where "s1 = snd (shouldSkipLoopElement e t1 s)"
  define s2 where "s2 = snd (shouldSkipLoopElement e t2 s1)"
  define s3 where "s3 = snd (shouldSkipLoopElement e t3 s2)"
  define s4 where "s4 = snd (shouldSkipLoopElement e t4 s3)"
  define s5 where "s5 = snd (shouldSkipLoopElement e t5 s4)"
  have 1: "fst (shouldSkipLoopElement e t1 s) = False" "elementsLastChanges s1 e = Some t1"
    "cyc s1 e = 0"
    using step_first [OF start] by (simp_all add: s1_def)
  have 2: "fst (shouldSkipLoopElement e t2 s1) = False" "elementsLastChanges s2 e = Some t2"
    "cyc s2 e = 1"
    using step_count [OF 1(2) gaps(1)] 1(3) by (simp_all add: s2_def)
  have 3: "fst (shouldSkipLoopElement e t3 s2) = False" "elementsLastChanges s3 e = Some t3"
    "cyc s3 e = 2"
    using step_count [OF 2(2) gaps(2)] 2(3) by (simp_all add: s3_def)
  have 4: "fst (shouldSkipLoopElement e t4 s3) = False" "elementsLastChanges s4 e = Some t4"
    "cyc s4 e = 3"
    using step_count [OF 3(2) gaps(3)] 3(3) by (simp_all add: s4_def)
  have 5: "fst (shouldSkipLoopElement e t5 s4) = False" "elementsLastChanges s5 e = Some t5"
    "cyc s5 e = 4"
    using step_count [OF 4(2) gaps(4)] 4(3) by (simp_all add: s5_def)
  have 6: "fst (shouldSkipLoopElement e t6 s5) = True"
    using step_skip [OF 5(2) gaps(5)] 5(3) by simp
  show ?thesis
    using 1(1) 2(1) 3(1) 4(1) 5(1) 6
    by (simp add: split_def Let_def s1_def s2_def s3_def s4_def s5_def)
qed


text \<open>
  C5 (as amended): from a node that is new to the guard, or whose last processed mutation
  is at least 500 ms old, six mutations each less than 500 ms after the previous one give:
  the first five processed, the sixth skipped. And whenever the clock has advanced 500 ms
  or more past the last mutation of a node, the next mutation is processed and sets the
  cycle counter of the node to 0.
\<close>

theorem loop_guard_skips_sixth_and_resets:
  fixes s s' :: "'node LoopGuard"
  assumes start: "case elementsLastChanges s e of None \<Rightarrow> elementsLoopCycles s e = None
                  | Some l \<Rightarrow> 500 \<le> t1 - l"
    and gaps: "t2 - t1 < 500" "t3 - t2 < 500" "t4 - t3 < 500" "t5 - t4 < 500" "t6 - t5 < 500"
    and run: "ts \<noteq> []" "sorted ts"
      "case elementsLastChanges s' e of None \<Rightarrow> True | Some l \<Rightarrow> l \<le> hd ts"
    and quiet: "500 \<le> now - last ts"
  shows "fst (mutations e [t1, t2, t3, t4, t5, t6] s) = [False, False, False, False, False, True]
       \<and> fst (shouldSkipLoopElement e now (snd (mutations e ts s'))) = False
       \<and> elementsLoopCycles (snd (shouldSkipLoopElement e now (snd (mutations e ts s')))) e = Some 0
       \<and> elementsLastChanges (snd (shouldSkipLoopElement e now (snd (mutations e ts s')))) e = Some now"
proof -
  obtain l where l: "elementsLastChanges (snd (mutations e ts s')) e = Some l" "l \<le> last ts"
    using mutations_lastChange_le [OF run] by blast
  have "500 \<le> now - l" using l(2) quiet by linarith
  from quiet_resets [OF l(1) this] burst_six [OF start gaps] show ?thesis by simp
qed

theorem loop_guard_skips_sixth_and_resets_witness:
  "fst (mutations (0::nat) [0, 100, 200, 300, 400, 500] new_LoopGuard) =
      [False, False, False, False, False, True]
   \<and> sorted [0, 100, 200, 300, 400, 500 :: int]
   \<and> 500 \<le> (1000::int) - last [0, 100, 200, 300, 400, 500]
   \<and> fst (shouldSkipLoopElement (0::nat) 1000
        (snd (mutations 0 [0, 100, 200, 300, 400, 500] new_LoopGuard))) = False
   \<and> elementsLoopCycles (snd (shouldSkipLoopElement (0::nat) 1000
        (snd (mutations 0 [0, 100, 200, 300, 400, 500] new_LoopGuard)))) 0 = Some 0"
proof -
  have start: "case elementsLastChanges (new_LoopGuard :: nat LoopGuard) 0 of
                 None \<Rightarrow> elementsLoopCycles (new_LoopGuard :: nat LoopGuard) 0 = None
               | Some l \<Rightarrow> 500 \<le> 0 - l"
    by (simp add: new_LoopGuard_def)
  have run: "case elementsLastChanges (new_LoopGuard :: nat LoopGuard) 0 of
                 None \<Rightarrow> True | Some l \<Rightarrow> l \<le> hd [0, 100, 200, 300, 400, 500]"
    by (simp add: new_LoopGuard_def)
  have srt: "sorted [0, 100, 200, 300, 400, 500 :: int]" by simp
  have q: "500 \<le> (1000::int) - last [0, 100, 200, 300, 400, 500]" by simp
  show ?thesis
    using loop_guard_skips_sixth_and_resets [OF start _ _ _ _ _ _ srt run q, of 100 200 300 400 500]
      srt q
    by simp
qed

theorem loop_guard_fifth_mutation_counterexample:
  "fst (mutations (0::nat) [0, 100, 200, 300, 400] new_LoopGuard) ! 4 = False"
  by (simp add: shouldSkipLoopElement_def new_LoopGuard_def Let_def
      LOOP_DETECTION_THRESHOLD_def MAX_LOOP_CYCLES_def)

section \<open>Properties of the rounding to doubles\<close>

lemma round_half_even_of_int: "round_half_even (of_int k) = k"
  by (simp add: round_half_even_def)

lemma floor_log2_bounds:
  assumes "0 < x"
  shows "2 powr of_int \<lfloor>log 2 x\<rfloor> \<le> x" and "x < 2 powr (of_int \<lfloor>log 2 x\<rfloor> + 1)"
proof -
  have "of_int \<lfloor>log 2 x\<rfloor> \<le> log 2 x" by simp
  then have "2 powr of_int \<lfloor>log 2 x\<rfloor> \<le> 2 powr log 2 x" by (simp only: powr_le_cancel_iff) 
  then show "2 powr of_int \<lfloor>log 2 x\<rfloor> \<le> x" using assms by simp
  have "log 2 x < of_int \<lfloor>log 2 x\<rfloor> + 1" by linarith
  then have "2 powr log 2 x < 2 powr (of_int \<lfloor>log 2 x\<rfloor> + 1)" by (simp only: powr_less_cancel_iff)
  then show "x < 2 powr (of_int \<lfloor>log 2 x\<rfloor> + 1)" using assms by simp
qed

text \<open>Integers of magnitude below \<open>2 ^ 53\<close> are doubles.\<close>

lemma to_double_of_int:
  assumes "\<bar>n\<bar> < 2 ^ 53"
  shows "to_double (of_int n) = Fin (of_int n)"
proof (cases "n = 0")
  case True
  then show ?thesis by (simp add: to_double_def)
next
  case False
  define x :: real where "x = of_int n"
  define e where "e = \<lfloor>log 2 \<bar>x\<bar>\<rfloor>"
  have ax: "\<bar>x\<bar> = of_int \<bar>n\<bar>" unfolding x_def by simp
  have "1 \<le> \<bar>n\<bar>" using False by simp
  then have x1: "1 \<le> \<bar>x\<bar>" unfolding ax by (simp only: of_int_1_le_iff)
  have "(of_int \<bar>n\<bar> :: real) < of_int (2 ^ 53)" using assms by (simp only: of_int_less_iff)
  then have x2: "\<bar>x\<bar> < 2 ^ 53" unfolding ax by simp
  have "0 \<le> log 2 \<bar>x\<bar>" using x1 by simp
  then have e0: "0 \<le> e" unfolding e_def by simp
  have "log 2 \<bar>x\<bar> < 53" using x1 x2 by (simp add: log_less_iff powr_numeral)
  then have e52: "e \<le> 52" unfolding e_def by linarith
  define k where "k = nat (52 - e)"
  have ulp: "(2::real) powr (of_int e - 52) = 1 / 2 ^ k"
  proof -
    have "of_int e - 52 = - real k" unfolding k_def using e52 by simp
    then show ?thesis by (simp add: powr_minus powr_realpow inverse_eq_divide)
  qed
  have q: "x / (1 / 2 ^ k) = of_int (n * 2 ^ k)" unfolding x_def by simp
  have "to_double x = (let y = of_int (round_half_even (x / (1 / 2 ^ k))) * (1 / 2 ^ k)
                       in if 2 powr 1024 \<le> \<bar>y\<bar> then signed_inf (0 < x) else Fin y)"
    using False e0 ulp unfolding to_double_def x_def [symmetric] e_def [symmetric]
    by (simp add: x_def Let_def max_def)
  also have "\<dots> = (if 2 powr 1024 \<le> \<bar>x\<bar> then signed_inf (0 < x) else Fin x)"
    unfolding q round_half_even_of_int by (simp add: x_def Let_def)
  also have "\<dots> = Fin x"
  proof -
    have p: "(2::real) ^ 53 \<le> 2 ^ 1024" by (rule power_increasing) simp_all
    have "(2::real) powr 1024 = 2 ^ 1024" by (rule powr_numeral) simp
    then have "\<bar>x\<bar> < 2 powr 1024" using x2 p by linarith
    then show ?thesis by simp
  qed
  finally show ?thesis unfolding x_def .
qed

lemma round_half_even_cases: "round_half_even r = \<lfloor>r\<rfloor> \<or> round_half_even r = \<lfloor>r\<rfloor> + 1 \<and> of_int \<lfloor>r\<rfloor> < r"
  by (simp add: round_half_even_def Let_def)

lemma round_half_even_ge: "of_int k \<le> r \<Longrightarrow> k \<le> round_half_even r"
proof -
  assume "of_int k \<le> r"
  then have "k \<le> \<lfloor>r\<rfloor>" by (simp add: le_floor_iff)
  then show ?thesis using round_half_even_cases [of r] by auto
qed

lemma round_half_even_le: "r \<le> of_int k \<Longrightarrow> round_half_even r \<le> k"
proof -
  assume a: "r \<le> of_int k"
  then have f: "\<lfloor>r\<rfloor> \<le> k" by (simp add: floor_le_iff)
  from round_half_even_cases [of r] show ?thesis
  proof
    assume "round_half_even r = \<lfloor>r\<rfloor>" then show ?thesis using f by simp
  next
    assume b: "round_half_even r = \<lfloor>r\<rfloor> + 1 \<and> of_int \<lfloor>r\<rfloor> < r"
    then have "(of_int \<lfloor>r\<rfloor> :: real) < of_int k" using a by linarith
    then have "\<lfloor>r\<rfloor> < k" by (simp only: of_int_less_iff)
    then show ?thesis using b by simp
  qed
qed

lemma round_half_even_small: "\<bar>r\<bar> \<le> 1 / 2 \<Longrightarrow> round_half_even r = 0"
proof (cases "0 \<le> r")
  case True
  assume "\<bar>r\<bar> \<le> 1 / 2"
  then have "\<lfloor>r\<rfloor> = 0" using True by linarith
  then show ?thesis using \<open>\<bar>r\<bar> \<le> 1 / 2\<close> True by (simp add: round_half_even_def Let_def)
next
  case False
  assume "\<bar>r\<bar> \<le> 1 / 2"
  then have "\<lfloor>r\<rfloor> = - 1" using False by linarith
  then show ?thesis using \<open>\<bar>r\<bar> \<le> 1 / 2\<close> False by (simp add: round_half_even_def Let_def)
qed

text \<open>Overflow: a result of magnitude \<open>2 powr 1024\<close> or more becomes an infinity.\<close>

lemma to_double_overflow:
  assumes "2 powr 1024 \<le> \<bar>x\<bar>"
  shows "to_double x = signed_inf (0 < x)"
proof -
  have pos: "0 < \<bar>x\<bar>" using assms by (smt (verit) powr_gt_zero)
  then have x0: "x \<noteq> 0" by simp
  define e where "e = \<lfloor>log 2 \<bar>x\<bar>\<rfloor>"
  define ulp :: real where "ulp = 2 powr (of_int e - 52)"
  have "1024 \<le> log 2 \<bar>x\<bar>" using assms pos by (simp add: le_log_iff)
  then have e1: "1024 \<le> e" unfolding e_def by linarith
  have u0: "0 < ulp" unfolding ulp_def by simp
  have "2 powr of_int e \<le> \<bar>x\<bar>" unfolding e_def using floor_log2_bounds(1) [OF pos] .
  moreover have "2 powr of_int e = 2 ^ 52 * ulp"
  proof -
    have a: "(2::real) ^ 52 = 2 powr 52" by (rule powr_numeral [symmetric]) simp
    have "(2::real) powr (52 + (of_int e - 52)) = 2 powr 52 * 2 powr (of_int e - 52)"
      by (rule powr_add)
    moreover have "52 + (real_of_int e - 52) = of_int e" by simp
    ultimately show ?thesis unfolding ulp_def a by (simp only:)
  qed
  ultimately have r: "2 ^ 52 \<le> \<bar>x\<bar> / ulp" using u0 by (simp add: pos_le_divide_eq)
  define n where "n = round_half_even (x / ulp)"
  have n: "2 ^ 52 \<le> \<bar>n\<bar>"
  proof (cases "0 < x")
    case True
    then have "of_int (2 ^ 52) \<le> x / ulp" using r by simp
    then have "2 ^ 52 \<le> n" unfolding n_def by (rule round_half_even_ge)
    then show ?thesis by simp
  next
    case False
    then have "x / ulp \<le> of_int (- (2 ^ 52))" using r by simp
    then have "n \<le> - (2 ^ 52)" unfolding n_def by (rule round_half_even_le)
    then show ?thesis by simp
  qed
  have "(of_int (2 ^ 52) :: real) \<le> of_int \<bar>n\<bar>" using n by (simp only: of_int_le_iff)
  then have "2 ^ 52 \<le> \<bar>real_of_int n\<bar>" by simp
  then have "2 ^ 52 * ulp \<le> \<bar>of_int n\<bar> * ulp" using u0 by (simp only: mult_le_cancel_right_pos)
  then have "2 powr of_int e \<le> \<bar>of_int n * ulp\<bar>"
    using \<open>2 powr of_int e = 2 ^ 52 * ulp\<close> u0 by (simp add: abs_mult)
  moreover have "(2::real) powr 1024 \<le> 2 powr of_int e"
  proof (rule powr_mono)
    show "1024 \<le> real_of_int e" using e1 by simp
  qed simp
  ultimately have big: "2 powr 1024 \<le> \<bar>of_int n * ulp\<bar>" by linarith
  have "max e (- 1022) = e" using e1 by simp
  then show ?thesis
    using x0 big unfolding to_double_def e_def [symmetric] Let_def
    by (simp add: ulp_def [symmetric] n_def [symmetric])
qed

text \<open>Underflow: a result of magnitude at most half the smallest subnormal becomes zero.\<close>

lemma to_double_underflow:
  assumes "\<bar>x\<bar> \<le> 2 powr (- 1075)"
  shows "to_double x = Fin 0"
proof (cases "x = 0")
  case True
  then show ?thesis by (simp add: to_double_def)
next
  case False
  then have pos: "0 < \<bar>x\<bar>" by simp
  define e where "e = \<lfloor>log 2 \<bar>x\<bar>\<rfloor>"
  have "log 2 \<bar>x\<bar> \<le> - 1075" using assms pos by (simp add: log_le_iff)
  then have e1: "e \<le> - 1075" unfolding e_def by linarith
  then have m: "max e (- 1022) = - 1022" by simp
  define ulp :: real where "ulp = 2 powr (- 1074)"
  have u0: "0 < ulp" unfolding ulp_def by simp
  have "(2::real) powr (- 1074 + - 1) = 2 powr (- 1074) * 2 powr (- 1)" by (rule powr_add)
  moreover have "(- 1074 + - 1 :: real) = - 1075" by simp
  moreover have "(2::real) powr (- 1) = 1 / 2" by (simp add: powr_minus inverse_eq_divide)
  ultimately have "2 powr (- 1075) = ulp / 2" unfolding ulp_def by (simp only: mult_1 times_divide_eq_right mult_1_right)
  then have "\<bar>x\<bar> \<le> ulp / 2" using assms by simp
  then have "\<bar>x / ulp\<bar> \<le> 1 / 2" using u0 by (simp add: pos_divide_le_eq)
  then have z: "round_half_even (x / ulp) = 0" by (rule round_half_even_small)
  have "of_int (- 1022) - 52 = (- 1074 :: real)" by simp
  then show ?thesis
    using False z unfolding to_double_def e_def [symmetric] Let_def m ulp_def
    by simp
qed

text \<open>Powers of two from the smallest subnormal to the largest binade are doubles.\<close>

lemma to_double_pow2:
  assumes "- 1074 \<le> k" and "k \<le> 1023"
  shows "to_double (2 powr of_int k) = Fin (2 powr of_int k)"
proof -
  define x :: real where "x = 2 powr of_int k"
  have x0: "0 < x" unfolding x_def by simp
  have "log 2 \<bar>x\<bar> = of_int k" unfolding x_def by simp
  then have fl: "\<lfloor>log 2 \<bar>x\<bar>\<rfloor> = k" by simp
  define e where "e = max k (- 1022)"
  define ulp :: real where "ulp = 2 powr (of_int e - 52)"
  define m where "m = nat (k - e + 52)"
  have m0: "0 \<le> k - e + 52" unfolding e_def using assms by simp
  have "x = 2 powr (real m + (of_int e - 52))"
  proof -
    have "real m + (of_int e - 52) = of_int k" unfolding m_def using m0 by simp
    then show ?thesis unfolding x_def by (simp only:)
  qed
  also have "\<dots> = 2 powr real m * ulp" unfolding ulp_def by (rule powr_add)
  also have "2 powr real m = (2::real) ^ m" by (rule powr_realpow) simp
  finally have xm: "x = 2 ^ m * ulp" .
  have u0: "0 < ulp" unfolding ulp_def by simp
  then have "x / ulp = of_int (2 ^ m)" unfolding xm by simp
  then have r: "round_half_even (x / ulp) = 2 ^ m" by (simp only: round_half_even_of_int)
  have "x < 2 powr 1024"
  proof -
    have "real_of_int k < 1024" using assms by simp
    then show ?thesis unfolding x_def by (simp only: powr_less_cancel_iff)
  qed
  then have small: "\<not> 2 powr 1024 \<le> \<bar>x\<bar>" using x0 by simp
  have "to_double x = (if 2 powr 1024 \<le> \<bar>of_int (round_half_even (x / ulp)) * ulp\<bar>
                        then signed_inf (0 < x) else Fin (of_int (round_half_even (x / ulp)) * ulp))"
    using x0 unfolding to_double_def fl e_def [symmetric] Let_def ulp_def [symmetric] by simp
  also have "of_int (round_half_even (x / ulp)) * ulp = x" unfolding r using xm by simp
  finally show ?thesis using small unfolding x_def by simp
qed

lemma to_double_1: "to_double 1 = Fin 1"
  using to_double_of_int [of 1] by simp

lemma to_double_numeral: "numeral w < (2::int) ^ 53 \<Longrightarrow> to_double (numeral w) = Fin (numeral w)"
  using to_double_of_int [of "numeral w"] by simp


section \<open>Properties of \<open>scale\<close>\<close>

lemma scale_fin_range: "min c d \<le> scale_fin v a b c d \<and> scale_fin v a b c d \<le> max c d"
  by (simp add: scale_fin_def clamp_fin_def min_def max_def)

lemma n_add_NaN [simp]: "n_add x NaN = NaN"
  by (cases x) simp_all

lemma n_mul_NaN [simp]: "n_mul x NaN = NaN"
  by (cases x) simp_all

lemma n_div_NaN [simp]: "n_div NaN y = NaN"
  by (cases y) simp_all

lemma clamp_range:
  "clamp x (n_min c d) (n_max c d) = NaN
   \<or> (n_le (n_min c d) (clamp x (n_min c d) (n_max c d))
      \<and> n_le (clamp x (n_min c d) (n_max c d)) (n_max c d))"
  by (cases x; cases c; cases d; simp add: clamp_def)

lemma clamp_nan:
  "clamp x (n_min c d) (n_max c d) = NaN \<longleftrightarrow> x = NaN \<or> c = NaN \<or> d = NaN"
  by (cases x; cases c; cases d; simp add: clamp_def)

lemma remap_nan: "c = NaN \<or> d = NaN \<Longrightarrow> linear_remap v a b c d = NaN"
  by (auto simp add: linear_remap_def n_sub_def)

text \<open>An empty input range with a value off it: the quotient is an infinity and the
  result is one end of the output range.\<close>

lemma scale_empty_range: "scale (Fin 1) (Fin 0) (Fin 0) (Fin 0) (Fin 1) = Fin 1"
  by (simp add: scale_def linear_remap_def clamp_def n_sub_def to_double_1 to_double_def [of 0]
                signed_inf_def)

lemma scale_beyond_range: "scale (Fin 2) (Fin 0) (Fin 1) (Fin 0) (Fin 1) = Fin 1"
  by (simp add: scale_def linear_remap_def clamp_def n_sub_def to_double_1 to_double_numeral
                to_double_def [of 0])

lemma scale_infinite_value: "scale PInf (Fin 0) (Fin 1) (Fin 0) (Fin 1) = Fin 1"
  by (simp add: scale_def linear_remap_def clamp_def n_sub_def to_double_1 signed_inf_def)

text \<open>Overflow: both differences of \<open>scale(1e308, -1e308, 1e308, 0, 1)\<close> are infinite,
  and their quotient is \<open>NaN\<close>.\<close>

lemma scale_overflow:
  assumes "2 powr 1024 \<le> x + x"
  shows "scale (Fin x) (Fin (- x)) (Fin x) (Fin 0) (Fin 1) = NaN"
proof -
  have "0 < x + x" using assms by (smt (verit) powr_gt_zero)
  moreover have "2 powr 1024 \<le> \<bar>x + x\<bar>" using assms by simp
  then have "to_double (x + x) = signed_inf (0 < x + x)" by (rule to_double_overflow)
  ultimately have "to_double (x + x) = PInf" by (simp add: signed_inf_def)
  then have "n_sub (Fin x) (Fin (- x)) = PInf" unfolding n_sub_def by simp
  moreover have "n_sub (Fin 1) (Fin 0) = Fin 1" by (simp add: n_sub_def to_double_1)
  ultimately show ?thesis
    unfolding scale_def linear_remap_def clamp_def by (simp add: signed_inf_def)
qed

lemma scale_overflow_nan:
  "scale (Fin (10 ^ 308)) (Fin (- (10 ^ 308))) (Fin (10 ^ 308)) (Fin 0) (Fin 1) = NaN"
proof (rule scale_overflow)
  have "(2::real) powr 1024 = 2 ^ 1024" by (rule powr_numeral) simp
  also have "\<dots> \<le> 10 ^ 308 + 10 ^ 308" by simp
  finally show "(2::real) powr 1024 \<le> 10 ^ 308 + 10 ^ 308" .
qed

text \<open>Underflow: the product in \<open>scale(2^-600, 0, 0, 0, 2^-600)\<close> rounds to zero, and
  zero divided by zero is \<open>NaN\<close>.\<close>

lemma scale_underflow_nan:
  "scale (Fin (2 powr (- 600))) (Fin 0) (Fin 0) (Fin 0) (Fin (2 powr (- 600))) = NaN"
proof -
  have e: "to_double (2 powr (- 600)) = Fin (2 powr (- 600))"
    using to_double_pow2 [of "- 600"] by simp
  have "(2::real) powr (- 600 + - 600) = 2 powr (- 600) * 2 powr (- 600)" by (rule powr_add)
  moreover have "(2::real) powr (- 600 + - 600) \<le> 2 powr (- 1075)" by (rule powr_mono) simp_all
  ultimately have "\<bar>2 powr (- 600) * 2 powr (- 600) :: real\<bar> \<le> 2 powr (- 1075)" by simp
  then have u: "to_double (2 powr (- 600) * 2 powr (- 600)) = Fin 0" by (rule to_double_underflow)
  have s: "n_sub (Fin (2 powr (- 600))) (Fin 0) = Fin (2 powr (- 600))"
    unfolding n_sub_def using e by simp
  have z: "n_sub (Fin 0) (Fin 0) = Fin 0" by (simp add: n_sub_def to_double_def [of 0])
  show ?thesis unfolding scale_def linear_remap_def clamp_def s z using u by simp
qed


text \<open>C9 as stated fails where the input range is empty: \<open>scale(0, 0, 0, 0, 1)\<close> is
  \<open>0 + (0 * 1) / 0\<close>, which is \<open>NaN\<close>, and \<open>Math.max\<close> and \<open>Math.min\<close> pass \<open>NaN\<close> on.\<close>

theorem scale_counterexample:
  "scale (Fin 0) (Fin 0) (Fin 0) (Fin 0) (Fin 1) = NaN
   \<and> \<not> (n_le (n_min (Fin 0) (Fin 1)) (scale (Fin 0) (Fin 0) (Fin 0) (Fin 0) (Fin 1))
        \<and> n_le (scale (Fin 0) (Fin 0) (Fin 0) (Fin 0) (Fin 1)) (n_max (Fin 0) (Fin 1)))"
  by (simp add: scale_def linear_remap_def clamp_def n_sub_def to_double_1 to_double_def [of 0])


text \<open>
  C9 (as amended): for every value and every choice of the four range parameters, the
  infinities and \<open>NaN\<close> included, \<open>scale\<close> returns either \<open>NaN\<close> or a number
  within \<open>[min(outMin,outMax), max(outMin,outMax)]\<close>, also for a value outside
  \<open>[inMin, inMax]\<close>; it returns \<open>NaN\<close> exactly when the remapped value
  \<open>outMin + ((value - inMin) * (outMax - outMin)) / (inMax - inMin)\<close>, computed in
  double arithmetic, is \<open>NaN\<close>.
\<close>

theorem scale_clamped_unless_nan:
  "(scale v inMin inMax outMin outMax = NaN
      \<longleftrightarrow> linear_remap v inMin inMax outMin outMax = NaN)
   \<and> (scale v inMin inMax outMin outMax = NaN
      \<or> (n_le (n_min outMin outMax) (scale v inMin inMax outMin outMax)
         \<and> n_le (scale v inMin inMax outMin outMax) (n_max outMin outMax)))"
proof
  show "scale v inMin inMax outMin outMax = NaN
          \<longleftrightarrow> linear_remap v inMin inMax outMin outMax = NaN"
    unfolding scale_def clamp_nan using remap_nan [of outMin outMax v inMin inMax] by blast
  show "scale v inMin inMax outMin outMax = NaN
      \<or> (n_le (n_min outMin outMax) (scale v inMin inMax outMin outMax)
         \<and> n_le (scale v inMin inMax outMin outMax) (n_max outMin outMax))"
    unfolding scale_def by (rule clamp_range)
qed


theorem scale_clamped_unless_nan_witness:
  "scale (Fin 2) (Fin 0) (Fin 1) (Fin 0) (Fin 1) \<noteq> NaN
   \<and> n_le (n_min (Fin 0) (Fin 1)) (scale (Fin 2) (Fin 0) (Fin 1) (Fin 0) (Fin 1))
   \<and> n_le (scale (Fin 2) (Fin 0) (Fin 1) (Fin 0) (Fin 1)) (n_max (Fin 0) (Fin 1))
   \<and> scale PInf (Fin 0) (Fin 1) (Fin 0) (Fin 1) \<noteq> NaN
   \<and> n_le (n_min (Fin 0) (Fin 1)) (scale PInf (Fin 0) (Fin 1) (Fin 0) (Fin 1))
   \<and> n_le (scale PInf (Fin 0) (Fin 1) (Fin 0) (Fin 1)) (n_max (Fin 0) (Fin 1))"
  using scale_clamped_unless_nan [of "Fin 2" "Fin 0" "Fin 1" "Fin 0" "Fin 1"]
    scale_clamped_unless_nan [of PInf "Fin 0" "Fin 1" "Fin 0" "Fin 1"]
  by (simp add: scale_beyond_range scale_infinite_value)

section \<open>Round trip between RGB and HSL\<close>

lemma js_round_of_int [simp]: "js_round (of_int k) = k"
  by (simp add: js_round_def)

lemma js_rem_small: "\<bar>x\<bar> < y \<Longrightarrow> js_rem x y = x"
proof -
  assume a: "\<bar>x\<bar> < y"
  then have y: "0 < y" by linarith
  have "js_trunc (x / y) = 0"
  proof (cases "0 \<le> x")
    case True
    then have "0 \<le> x / y" "x / y < 1" using a y by (simp_all add: field_simps)
    then show ?thesis by (simp add: js_trunc_def floor_eq_iff)
  next
    case False
    then have "x / y < 0" "-1 < x / y" using a y by (simp_all add: field_simps)
    then show ?thesis by (simp add: js_trunc_def ceiling_eq_iff)
  qed
  then show ?thesis by (simp add: js_rem_def)
qed

lemma js_rem_2: "0 \<le> x \<Longrightarrow> of_int k * 2 \<le> x \<Longrightarrow> x < of_int k * 2 + 2 \<Longrightarrow> js_rem x 2 = x - 2 * of_int k"
proof -
  assume a: "0 \<le> x" "of_int k * 2 \<le> x" "x < of_int k * 2 + 2"
  have "\<lfloor>x / 2\<rfloor> = k" using a by (simp add: floor_eq_iff)
  then show ?thesis using a by (simp add: js_rem_def js_trunc_def)
qed

lemma hslToRGB_sextant:
  assumes "s \<noteq> 0" "0 \<le> h0" "h0 < 6" "(1 - \<bar>2 * l - 1\<bar>) * s = c" "l - c / 2 = m"
  shows "hslToRGB \<lparr>hsl_h = 60 * h0, hsl_s = s, hsl_l = l, hsl_a = a\<rparr> =
    (if h0 < 1 then rounded_rgb (c + m) (c * h0 + m) (0 + m) a
     else if h0 < 2 then rounded_rgb (c * (2 - h0) + m) (c + m) (0 + m) a
     else if h0 < 3 then rounded_rgb (0 + m) (c + m) (c * (h0 - 2) + m) a
     else if h0 < 4 then rounded_rgb (0 + m) (c * (4 - h0) + m) (c + m) a
     else if h0 < 5 then rounded_rgb (c * (h0 - 4) + m) (0 + m) (c + m) a
     else rounded_rgb (c + m) (0 + m) (c * (6 - h0) + m) a)"
proof -
  consider "h0 < 2" | "2 \<le> h0" "h0 < 4" | "4 \<le> h0" using assms by linarith
  then show ?thesis
  proof cases
    case 1
    then have "js_rem h0 2 = h0" using js_rem_2 [of h0 0] assms by simp
    then show ?thesis using assms 1 by (simp add: hslToRGB_def Let_def abs_if)
  next
    case 2
    then have "js_rem h0 2 = h0 - 2" using js_rem_2 [of h0 1] assms by simp
    then show ?thesis using assms 2 by (simp add: hslToRGB_def Let_def abs_if)
  next
    case 3
    then have "js_rem h0 2 = h0 - 4" using js_rem_2 [of h0 2] assms by simp
    then show ?thesis using assms 3 by (simp add: hslToRGB_def Let_def abs_if)
  qed
qed

text \<open>The lemma above at a hue \<open>60 * h0\<close> whose sextant is known, with the three
  channel values before rounding given.\<close>

lemma hslToRGB_at:
  assumes "s \<noteq> 0" "(1 - \<bar>2 * l - 1\<bar>) * s = c" "l - c / 2 = m"
    and "of_int k \<le> h0" "h0 < of_int k + 1" "0 \<le> k" "k < 6"
    and "(if k = 0 then (c + m, c * h0 + m, m)
          else if k = 1 then (c * (2 - h0) + m, c + m, m)
          else if k = 2 then (m, c + m, c * (h0 - 2) + m)
          else if k = 3 then (m, c * (4 - h0) + m, c + m)
          else if k = 4 then (c * (h0 - 4) + m, m, c + m)
          else (c + m, m, c * (6 - h0) + m)) = (R, G, B)"
  shows "hslToRGB \<lparr>hsl_h = 60 * h0, hsl_s = s, hsl_l = l, hsl_a = a\<rparr> = rounded_rgb R G B a"
proof -
  have b: "0 \<le> h0" "h0 < 6" using assms(4-7) by linarith+
  have "k = 0 \<or> k = 1 \<or> k = 2 \<or> k = 3 \<or> k = 4 \<or> k = 5" using assms(6,7) by linarith
  then show ?thesis
    using assms(4,5,8) unfolding hslToRGB_sextant [OF assms(1) b assms(2,3)]
    by (elim disjE) auto
qed

lemma roundtrip_real:
  fixes x y z a :: real
  assumes rng: "0 \<le> x" "x \<le> 255" "0 \<le> y" "y \<le> 255" "0 \<le> z" "z \<le> 255"
  shows "hslToRGB (rgbToHSL \<lparr>rgb_r = x, rgb_g = y, rgb_b = z, rgb_a = a\<rparr>) =
           \<lparr>rgb_r = of_int (js_round x), rgb_g = of_int (js_round y),
            rgb_b = of_int (js_round z), rgb_a = a\<rparr>"
proof -
  define R G B where "R = x / 255" and "G = y / 255" and "B = z / 255"
  define mx mn where "mx = max (max R G) B" and "mn = min (min R G) B"
  define c l where "c = mx - mn" and "l = (mx + mn) / 2"
  have xyz: "R * 255 = x" "G * 255 = y" "B * 255 = z" by (simp_all add: R_def G_def B_def)
  have r01: "0 \<le> R" "R \<le> 1" "0 \<le> G" "G \<le> 1" "0 \<le> B" "B \<le> 1"
    using rng by (simp_all add: R_def G_def B_def)
  have mxmn: "mn \<le> R" "mn \<le> G" "mn \<le> B" "R \<le> mx" "G \<le> mx" "B \<le> mx" "0 \<le> mn" "mx \<le> 1"
    using r01 by (simp_all add: mx_def mn_def)
  have unf: "rgbToHSL \<lparr>rgb_r = x, rgb_g = y, rgb_b = z, rgb_a = a\<rparr> =
     (if c = 0 then \<lparr>hsl_h = 0, hsl_s = 0, hsl_l = l, hsl_a = a\<rparr>
      else \<lparr>hsl_h = (if (if mx = R then js_rem ((G - B) / c) 6
                     else if mx = G then (B - R) / c + 2
                     else (R - G) / c + 4) * 60 < 0
                     then (if mx = R then js_rem ((G - B) / c) 6
                     else if mx = G then (B - R) / c + 2
                     else (R - G) / c + 4) * 60 + 360
                     else (if mx = R then js_rem ((G - B) / c) 6
                     else if mx = G then (B - R) / c + 2
                     else (R - G) / c + 4) * 60),
             hsl_s = c / (1 - \<bar>2 * l - 1\<bar>), hsl_l = l, hsl_a = a\<rparr>)"
    unfolding rgbToHSL_def Let_def R_def G_def B_def mx_def mn_def c_def l_def
    by (simp only: RGBA.select_convs)
  show ?thesis
  proof (cases "c = 0")
    case True
    then have "R = mx" "G = mx" "B = mx" "mn = mx" using mxmn by (simp_all add: c_def)
    then have eq: "y = x" "z = x" "l * 255 = x" using xyz by (simp_all add: l_def)
    have "rgbToHSL \<lparr>rgb_r = x, rgb_g = y, rgb_b = z, rgb_a = a\<rparr> =
            \<lparr>hsl_h = 0, hsl_s = 0, hsl_l = l, hsl_a = a\<rparr>"
      unfolding unf using True by simp
    then show ?thesis using eq by (simp add: hslToRGB_def Let_def)
  next
    case False
    then have cpos: "0 < c" using mxmn by (simp add: c_def)
    define D where "D = 1 - \<bar>2 * l - 1\<bar>"
    have Dpos: "0 < D" using cpos mxmn by (simp add: D_def l_def c_def abs_if)
    define s where "s = c / D"
    have s0: "s \<noteq> 0" using cpos Dpos by (simp add: s_def)
    have cm: "(1 - \<bar>2 * l - 1\<bar>) * s = c" using Dpos by (simp add: s_def D_def [symmetric])
    have m: "l - c / 2 = mn" by (simp add: l_def c_def field_simps)
    have top: "c + mn = mx" by (simp add: c_def)
    define h0 where "h0 = (if mx = R then js_rem ((G - B) / c) 6
                     else if mx = G then (B - R) / c + 2
                     else (R - G) / c + 4)"
    define H where "H = (if h0 * 60 < 0 then h0 * 60 + 360 else h0 * 60)"
    have hsl: "rgbToHSL \<lparr>rgb_r = x, rgb_g = y, rgb_b = z, rgb_a = a\<rparr> =
                 \<lparr>hsl_h = H, hsl_s = s, hsl_l = l, hsl_a = a\<rparr>"
      unfolding unf H_def h0_def s_def D_def using False by simp
    have goal: "hslToRGB \<lparr>hsl_h = H, hsl_s = s, hsl_l = l, hsl_a = a\<rparr> = rounded_rgb R G B a"
    proof -
      have "mx = R \<or> mx = G \<or> mx = B"
        by (simp add: mx_def max_def)
      then consider (r) "mx = R" | (g) "mx \<noteq> R" "mx = G" | (b) "mx \<noteq> R" "mx \<noteq> G" "mx = B"
        by blast
      then show ?thesis
      proof cases
        case r
        define q where "q = (G - B) / c"
        have cq: "c * q = G - B" using cpos by (simp add: q_def)
        have qb: "\<bar>q\<bar> \<le> 1" using cpos mxmn by (simp add: q_def c_def field_simps abs_if)
        then have rem: "js_rem q 6 = q" by (intro js_rem_small) linarith
        show ?thesis
        proof (cases "B \<le> G")
          case True
          then have mnB: "mn = B" using r mxmn by (simp add: mn_def min_def)
          have q0: "0 \<le> q" using True cpos by (simp add: q_def)
          have HH: "H = 60 * q" using r rem q0 by (simp add: H_def h0_def q_def [symmetric])
          show ?thesis
          proof (cases "q < 1")
            case True
            show ?thesis unfolding HH
              by (rule hslToRGB_at [OF s0 cm m, where k = 0])
                (use True q0 cq top mnB r in simp_all)
          next
            case False
            then have q1: "q = 1" using qb by linarith
            then have "G = mx" using cq top mnB by simp
            then show ?thesis unfolding HH
              by (intro hslToRGB_at [OF s0 cm m, where k = 1])
                (use q1 top mnB r in simp_all)
          qed
        next
          case False
          then have mnG: "mn = G" using r mxmn by (simp add: mn_def min_def)
          have q0: "q < 0" using False cpos by (simp add: q_def field_simps)
          have HH: "H = 60 * (q + 6)" using r rem q0 by (simp add: H_def h0_def q_def [symmetric])
          have "-1 \<le> q" using qb by linarith
          then show ?thesis unfolding HH
            by (intro hslToRGB_at [OF s0 cm m, where k = 5])
              (use q0 cq top mnG r in simp_all)
        qed
      next
        case g
        define q where "q = (B - R) / c"
        have cq: "c * q = B - R" using cpos by (simp add: q_def)
        have Rlt: "R < mx" using g mxmn by linarith
        have qb: "-1 < q" "q \<le> 1" using cpos mxmn Rlt g by (simp_all add: q_def c_def field_simps)
        have HH: "H = 60 * (q + 2)" using g qb by (simp add: H_def h0_def q_def [symmetric])
        have sgn: "q < 0 \<longleftrightarrow> B < R" using cpos by (simp add: q_def field_simps)
        consider "q < 0" | "0 \<le> q" "q < 1" | "q = 1" using qb by linarith
        then show ?thesis
        proof cases
          case 1
          then have mnB: "mn = B" using mxmn g sgn by (simp add: mn_def min_def)
          show ?thesis unfolding HH
            by (intro hslToRGB_at [OF s0 cm m, where k = 1])
              (use 1 qb cq top mnB g in simp_all)
        next
          case 2
          then have mnR: "mn = R" using mxmn g sgn by (simp add: mn_def min_def)
          show ?thesis unfolding HH
            by (intro hslToRGB_at [OF s0 cm m, where k = 2])
              (use 2 cq top mnR g in simp_all)
        next
          case 3
          then have "B - R = c" using cq by simp
          then have "B = mx" "mn = R" using mxmn top by (simp_all add: c_def)
          then show ?thesis unfolding HH
            by (intro hslToRGB_at [OF s0 cm m, where k = 3])
              (use 3 top g in simp_all)
        qed
      next
        case b
        define q where "q = (R - G) / c"
        have cq: "c * q = R - G" using cpos by (simp add: q_def)
        have lt: "R < mx" "G < mx" using b mxmn by linarith+
        have qb: "-1 < q" "q < 1" using cpos mxmn lt by (simp_all add: q_def c_def field_simps)
        have HH: "H = 60 * (q + 4)" using b qb by (simp add: H_def h0_def q_def [symmetric])
        have sgn: "q < 0 \<longleftrightarrow> R < G" using cpos by (simp add: q_def field_simps)
        show ?thesis
        proof (cases "q < 0")
          case True
          then have mnR: "mn = R" using mxmn b sgn by (simp add: mn_def min_def)
          show ?thesis unfolding HH
            by (intro hslToRGB_at [OF s0 cm m, where k = 3])
              (use True qb cq top mnR b in simp_all)
        next
          case False
          then have mnG: "mn = G" using mxmn b sgn by (simp add: mn_def min_def)
          show ?thesis unfolding HH
            by (intro hslToRGB_at [OF s0 cm m, where k = 4])
              (use False qb cq top mnG b in simp_all)
        qed
      qed
    qed
    show ?thesis using goal by (simp add: hsl xyz rounded_rgb_def)
  qed
qed

text \<open>
  C6: for every RGB triple with integer channels in 0..255 and alpha 1,
  \<open>hslToRGB(rgbToHSL(rgb))\<close> has channels that differ from the input's by at most 1.
  (On real arithmetic the round trip is exact, by \<open>roundtrip_real\<close>; the tolerance of the
  claim leaves room for the rounding of doubles, which is not modelled.)
\<close>

theorem hsl_roundtrip_within_one:
  fixes r g b :: int
  assumes "0 \<le> r" "r \<le> 255" "0 \<le> g" "g \<le> 255" "0 \<le> b" "b \<le> 255"
  shows "\<bar>rgb_r (hslToRGB (rgbToHSL \<lparr>rgb_r = of_int r, rgb_g = of_int g, rgb_b = of_int b, rgb_a = 1\<rparr>))
            - of_int r\<bar> \<le> 1
       \<and> \<bar>rgb_g (hslToRGB (rgbToHSL \<lparr>rgb_r = of_int r, rgb_g = of_int g, rgb_b = of_int b, rgb_a = 1\<rparr>))
            - of_int g\<bar> \<le> 1
       \<and> \<bar>rgb_b (hslToRGB (rgbToHSL \<lparr>rgb_r = of_int r, rgb_g = of_int g, rgb_b = of_int b, rgb_a = 1\<rparr>))
            - of_int b\<bar> \<le> 1
       \<and> rgb_a (hslToRGB (rgbToHSL \<lparr>rgb_r = of_int r, rgb_g = of_int g, rgb_b = of_int b, rgb_a = 1\<rparr>))
            = 1"
proof -
  have "hslToRGB (rgbToHSL \<lparr>rgb_r = of_int r, rgb_g = of_int g, rgb_b = of_int b, rgb_a = 1\<rparr>) =
          \<lparr>rgb_r = of_int r, rgb_g = of_int g, rgb_b = of_int b, rgb_a = 1\<rparr>"
    using assms roundtrip_real [of "of_int r" "of_int g" "of_int b" 1] by simp
  then show ?thesis by simp
qed

theorem hsl_roundtrip_within_one_witness:
  "\<bar>rgb_r (hslToRGB (rgbToHSL \<lparr>rgb_r = 200, rgb_g = 100, rgb_b = 50, rgb_a = 1\<rparr>)) - 200\<bar> \<le> 1
   \<and> \<bar>rgb_g (hslToRGB (rgbToHSL \<lparr>rgb_r = 200, rgb_g = 100, rgb_b = 50, rgb_a = 1\<rparr>)) - 100\<bar> \<le> 1
   \<and> \<bar>rgb_b (hslToRGB (rgbToHSL \<lparr>rgb_r = 200, rgb_g = 100, rgb_b = 50, rgb_a = 1\<rparr>)) - 50\<bar> \<le> 1"
  using hsl_roundtrip_within_one [of 200 100 50] by simp


section \<open>Contrast repair\<close>

lemma adjust_trace_nonempty: "adjust_trace (Suc n) sl adj bg t \<noteq> []"
  by (simp add: Let_def)

lemma adjust_loop_trace:
  "adjust_loop (Suc n) sl adj bg t = fst (last (adjust_trace (Suc n) sl adj bg t))"
proof (induction n arbitrary: adj)
  case 0
  show ?case by (simp add: Let_def)
next
  case (Suc n)
  show ?case
    using Suc.IH [of "adjust_step sl adj"] adjust_trace_nonempty [of n sl "adjust_step sl adj" bg t]
    by (simp add: Let_def del: adjust_loop.simps adjust_trace.simps
        add: adjust_loop.simps(2) [of "Suc n"] adjust_trace.simps(2) [of "Suc n"])
qed

lemma pow24_pow5:
  fixes x :: real
  assumes "0 < x"
  shows "(x powr 2.4) ^ 5 = x ^ 12"
proof -
  have p: "0 < x powr 2.4" using assms by simp
  have "(x powr 2.4) ^ 5 = (x powr 2.4) powr (real 5)"
    using powr_realpow [OF p, of 5] by simp
  also have "\<dots> = x powr (real 12)" by (simp add: powr_powr)
  also have "\<dots> = x ^ 12" using powr_realpow [OF assms, of 12] by simp
  finally show ?thesis .
qed

lemma pow24_less:
  fixes x y :: real
  assumes "0 < x" "0 < y" "x ^ 12 < y ^ 5"
  shows "x powr 2.4 < y"
proof -
  have "(x powr 2.4) ^ 5 < y ^ 5" using assms(3) pow24_pow5 [OF assms(1)] by simp
  then show ?thesis using assms(2) power_less_imp_less_base [of "x powr 2.4" 5 y] by simp
qed

lemma pow24_ge:
  fixes x y :: real
  assumes "0 < x" "0 < y" "y ^ 5 \<le> x ^ 12"
  shows "y \<le> x powr 2.4"
proof -
  have "y ^ 5 \<le> (x powr 2.4) ^ 5" using assms(3) pow24_pow5 [OF assms(1)] by simp
  then show ?thesis using power_le_imp_le_base [of y 4 "x powr 2.4"] by simp
qed


lemma linear_channel_high: "11 \<le> k \<Longrightarrow> linear_channel k = gamma_expanded k"
  by (simp add: linear_channel_def gamma_expanded_def Let_def)

lemma lum_gray: "11 \<le> k \<Longrightarrow> getRelativeLuminance (gray k) = gamma_expanded k"
  by (simp add: getRelativeLuminance_def gray_def linear_channel_high)

lemma lum_black: "getRelativeLuminance (gray 0) = 0"
  by (simp add: getRelativeLuminance_def gray_def linear_channel_def)

lemma G_nonneg: "0 \<le> gamma_expanded k"
  by (simp add: gamma_expanded_def)

lemma G_mono: "0 \<le> j \<Longrightarrow> j \<le> k \<Longrightarrow> gamma_expanded j \<le> gamma_expanded k"
  unfolding gamma_expanded_def by (intro powr_mono2) (simp_all add: field_simps)

lemma ratio_gray_black: "11 \<le> k \<Longrightarrow> getContrastRatio (gray k) (gray 0) = (gamma_expanded k + 0.05) / 0.05"
  using G_nonneg [of k]
  by (simp add: getContrastRatio_def Let_def lum_gray lum_black max_def min_def)

lemma G_109: "gamma_expanded 109 < 0.175"
  unfolding gamma_expanded_def by (rule pow24_less) (simp_all add: power_divide field_simps)

lemma G_124: "0.175 \<le> gamma_expanded 124"
  unfolding gamma_expanded_def by (rule pow24_ge) (simp_all add: power_divide field_simps)


lemma ratio_mono: "11 \<le> j \<Longrightarrow> j \<le> k \<Longrightarrow>
    getContrastRatio (gray j) (gray 0) \<le> getContrastRatio (gray k) (gray 0)"
  using G_mono [of j k] by (simp add: ratio_gray_black)

lemma ratio_109: "getContrastRatio (gray 109) (gray 0) < 4.5"
  using G_109 by (simp add: ratio_gray_black)

lemma ratio_124: "4.5 \<le> getContrastRatio (gray 124) (gray 0)"
  using G_124 by (simp add: ratio_gray_black)

lemma ratio_below:
  assumes "11 \<le> k" "k \<le> 109"
  shows "getContrastRatio (gray k) (gray 0) < 4.5"
  using ratio_mono [OF assms] ratio_109 by linarith

lemma trace_step_gray:
  assumes "11 \<le> k + 15" "k + 15 \<le> 255"
  shows "adjust_trace (Suc n) True (gray k) (gray 0) t =
           (gray (k + 15), getContrastRatio (gray (k + 15)) (gray 0)) #
           (if t \<le> getContrastRatio (gray (k + 15)) (gray 0) then []
            else adjust_trace n True (gray (k + 15)) (gray 0) t)"
  using assms by (simp add: Let_def adjust_step_def gray_def)

lemma trace_222:
  "adjust_trace 20 True (gray 34) (gray 0) 4.5 =
     [(gray 49, getContrastRatio (gray 49) (gray 0)),
      (gray 64, getContrastRatio (gray 64) (gray 0)),
      (gray 79, getContrastRatio (gray 79) (gray 0)),
      (gray 94, getContrastRatio (gray 94) (gray 0)),
      (gray 109, getContrastRatio (gray 109) (gray 0)),
      (gray 124, getContrastRatio (gray 124) (gray 0))]"
proof -
  have n: "(20::nat) = Suc (Suc (Suc (Suc (Suc (Suc 14)))))" by simp
  have b: "\<not> 4.5 \<le> getContrastRatio (gray 49) (gray 0)"
    "\<not> 4.5 \<le> getContrastRatio (gray 64) (gray 0)"
    "\<not> 4.5 \<le> getContrastRatio (gray 79) (gray 0)"
    "\<not> 4.5 \<le> getContrastRatio (gray 94) (gray 0)"
    "\<not> 4.5 \<le> getContrastRatio (gray 109) (gray 0)"
    using ratio_below [of 49] ratio_below [of 64] ratio_below [of 79] ratio_below [of 94]
      ratio_below [of 109] by simp_all
  have s1: "adjust_trace (Suc n) True (gray 34) (gray 0) 4.5 =
      (gray 49, getContrastRatio (gray 49) (gray 0)) # adjust_trace n True (gray 49) (gray 0) 4.5"
    for n using trace_step_gray [of 34 n "4.5"] b by simp
  have s2: "adjust_trace (Suc n) True (gray 49) (gray 0) 4.5 =
      (gray 64, getContrastRatio (gray 64) (gray 0)) # adjust_trace n True (gray 64) (gray 0) 4.5"
    for n using trace_step_gray [of 49 n "4.5"] b by simp
  have s3: "adjust_trace (Suc n) True (gray 64) (gray 0) 4.5 =
      (gray 79, getContrastRatio (gray 79) (gray 0)) # adjust_trace n True (gray 79) (gray 0) 4.5"
    for n using trace_step_gray [of 64 n "4.5"] b by simp
  have s4: "adjust_trace (Suc n) True (gray 79) (gray 0) 4.5 =
      (gray 94, getContrastRatio (gray 94) (gray 0)) # adjust_trace n True (gray 94) (gray 0) 4.5"
    for n using trace_step_gray [of 79 n "4.5"] b by simp
  have s5: "adjust_trace (Suc n) True (gray 94) (gray 0) 4.5 =
      (gray 109, getContrastRatio (gray 109) (gray 0)) # adjust_trace n True (gray 109) (gray 0) 4.5"
    for n using trace_step_gray [of 94 n "4.5"] b by simp
  have s6: "adjust_trace (Suc n) True (gray 109) (gray 0) 4.5 =
      [(gray 124, getContrastRatio (gray 124) (gray 0))]"
    for n using trace_step_gray [of 109 n "4.5"] ratio_124 by simp
  show ?thesis unfolding n s1 s2 s3 s4 s5 s6 ..
qed

lemma css_parse_black: "css_parseColor ''#000000'' = Some (gray 0)"
  by (simp add: css_parseColor_def trim_def is_space_def startsWith_def hex_digit_def
      substring_def gray_def Let_def)

lemma css_parse_222: "css_parseColor ''#222222'' = Some (gray 34)"
  by (simp add: css_parseColor_def trim_def is_space_def startsWith_def hex_digit_def
      substring_def gray_def Let_def)

text \<open>
  C7: background \<open>#000000\<close> and text \<open>#222222\<close> parse to (0,0,0) and (34,34,34); the
  ratio is below the target 4.5 and the background is dark, so the loop lightens: its
  iterations produce 49, 64, 79, 94, 109 and 124 on every channel (+15 each); the ratio
  never decreases from one iteration to the next; it is below 4.5 up to the fifth iteration
  and at least 4.5 after the sixth, where the loop stops, within its 20 iterations; and
  \<open>adjustForContrast\<close> returns that last colour.
\<close>

theorem contrast_repair_222_on_black:
  "css_parseColor ''#000000'' = Some (gray 0)
   \<and> css_parseColor ''#222222'' = Some (gray 34)
   \<and> getContrastRatio (gray 34) (gray 0) < 4.5
   \<and> getRelativeLuminance (gray 0) < 0.5
   \<and> map fst (adjust_trace 20 (getRelativeLuminance (gray 0) < 0.5) (gray 34) (gray 0) 4.5) =
        [gray 49, gray 64, gray 79, gray 94, gray 109, gray 124]
   \<and> sorted (getContrastRatio (gray 34) (gray 0) #
        map snd (adjust_trace 20 (getRelativeLuminance (gray 0) < 0.5) (gray 34) (gray 0) 4.5))
   \<and> list_all (\<lambda>ratio. ratio < 4.5)
        (butlast (map snd (adjust_trace 20 (getRelativeLuminance (gray 0) < 0.5) (gray 34) (gray 0) 4.5)))
   \<and> 4.5 \<le> snd (last (adjust_trace 20 (getRelativeLuminance (gray 0) < 0.5) (gray 34) (gray 0) 4.5))
   \<and> length (adjust_trace 20 (getRelativeLuminance (gray 0) < 0.5) (gray 34) (gray 0) 4.5) \<le> 20
   \<and> adjustForContrast (gray 34) (gray 0) 4.5 = gray 124
   \<and> 4.5 \<le> getContrastRatio (adjustForContrast (gray 34) (gray 0) 4.5) (gray 0)"
proof -
  have dark: "(getRelativeLuminance (gray 0) < 0.5) = True" by (simp add: lum_black)
  have low: "getContrastRatio (gray 34) (gray 0) < 4.5" using ratio_below [of 34] by simp
  have mono: "sorted [getContrastRatio (gray 34) (gray 0), getContrastRatio (gray 49) (gray 0),
      getContrastRatio (gray 64) (gray 0), getContrastRatio (gray 79) (gray 0),
      getContrastRatio (gray 94) (gray 0), getContrastRatio (gray 109) (gray 0),
      getContrastRatio (gray 124) (gray 0)]"
    using ratio_mono [of 34 49] ratio_mono [of 34 64] ratio_mono [of 34 79] ratio_mono [of 34 94]
      ratio_mono [of 34 109] ratio_mono [of 34 124]
      ratio_mono [of 49 64] ratio_mono [of 49 79] ratio_mono [of 49 94]
      ratio_mono [of 49 109] ratio_mono [of 49 124]
      ratio_mono [of 64 79] ratio_mono [of 64 94] ratio_mono [of 64 109] ratio_mono [of 64 124]
      ratio_mono [of 79 94] ratio_mono [of 79 109] ratio_mono [of 79 124]
      ratio_mono [of 94 109] ratio_mono [of 94 124] ratio_mono [of 109 124]
    by simp
  have below: "getContrastRatio (gray 49) (gray 0) < 4.5" "getContrastRatio (gray 64) (gray 0) < 4.5"
    "getContrastRatio (gray 79) (gray 0) < 4.5" "getContrastRatio (gray 94) (gray 0) < 4.5"
    "getContrastRatio (gray 109) (gray 0) < 4.5"
    using ratio_below [of 49] ratio_below [of 64] ratio_below [of 79] ratio_below [of 94]
      ratio_below [of 109] by simp_all
  have e: "(20::nat) = Suc 19" by simp
  have "adjust_loop 20 True (gray 34) (gray 0) 4.5 =
          fst (last (adjust_trace 20 True (gray 34) (gray 0) 4.5))"
    unfolding e by (rule adjust_loop_trace)
  then have loop: "adjust_loop 20 True (gray 34) (gray 0) 4.5 = gray 124"
    unfolding trace_222 by simp
  have nlow: "\<not> 4.5 \<le> getContrastRatio (gray 34) (gray 0)" using low by simp
  have res: "adjustForContrast (gray 34) (gray 0) 4.5 = gray 124"
    unfolding adjustForContrast_def Let_def dark by (simp only: nlow if_False loop)
  show ?thesis
    unfolding dark res trace_222
    using css_parse_black css_parse_222 low mono below ratio_124 by (simp add: lum_black)
qed

section \<open>Parsing an invalid hex colour\<close>

lemma parseInt16_gg: "parseInt16 ''gg'' = NaN"
  by (simp add: parseInt16_def startsWith_def hex_digit_def is_space_def Let_def)

lemma norm_ggg: "toLowerCase (trim ''#ggg'') = ''#ggg''"
  by (simp add: toLowerCase_def trim_def is_space_def lower_char_def)

lemma parseHex_ggg:
  "parseHex ''#ggg'' = Some \<lparr>rgb_r = NaN, rgb_g = NaN, rgb_b = NaN, rgb_a = Fin 1\<rparr>"
  by (simp add: parseHex_def startsWith_def Let_def parseInt16_gg)

text \<open>
  C8 (the code at the failing input): \<open>parseColor("#ggg")\<close>, on an empty cache, does not
  return null. \<open>parseHex\<close> only looks at the length of the text; \<open>parseInt("gg", 16)\<close>
  is \<open>NaN\<close>, and the result is an object whose three colour channels are \<open>NaN\<close>,
  which \<open>parseColor\<close> caches and returns. (\<open>parseRGB\<close> and \<open>parseHSL\<close> test
  their channels with \<open>isNaN\<close> and return null.)
\<close>

theorem parseColor_invalid_hex_not_null:
  "fst (parseColor parseRGB parseHSL ''#ggg'' Map.empty) =
     Some \<lparr>rgb_r = NaN, rgb_g = NaN, rgb_b = NaN, rgb_a = Fin 1\<rparr>"
  by (simp add: parseColor_def norm_ggg parseHex_ggg startsWith_def Let_def)

section \<open>Caches of the color transformation\<close>

lemma key_rgba_getRGBKey [simp]: "key_rgba (getRGBKey rgb) = rgb"
  by (cases rgb) (simp add: key_rgba_def getRGBKey_def)

lemma modify_uncached:
  assumes "is_closure modifier \<or> colorModificationCache st (modifier, getCacheId rgb theme) = None"
    and "\<forall>m. matrixCache st (theme_id theme, False) = Some m \<longrightarrow> m = createFilterMatrix theme False"
  shows "fst (modifyColorWithCache parse rgb theme modifier st) = uncached_result parse rgb theme modifier"
  using assms
  by (auto simp: modifyColorWithCache_def getCachedFilterMatrix_def uncached_result_def Let_def
      split: option.splits)

lemma modify_result:
  assumes "coherent parse theme opt_mode st"
  shows "fst (modifyColorWithCache parse rgb theme modifier st) = uncached_result parse rgb theme modifier"
proof (cases "is_closure modifier \<or> colorModificationCache st (modifier, getCacheId rgb theme) = None")
  case True
  then show ?thesis using assms modify_uncached [of modifier st rgb theme parse]
    by (simp add: coherent_def)
next
  case False
  then obtain v where v: "\<not> is_closure modifier"
    "colorModificationCache st (modifier, getCacheId rgb theme) = Some v" by auto
  have "colorModificationCache st (modifier, getCacheId (key_rgba (getRGBKey rgb)) theme) = Some v"
    using v(2) by simp
  then have "v = uncached_result parse (key_rgba (getRGBKey rgb)) theme modifier"
    using assms unfolding coherent_def by blast
  then show ?thesis using v by (simp add: modifyColorWithCache_def Let_def)
qed


lemma getRGBKey_key_rgba [simp]: "getRGBKey (key_rgba k) = k"
  by (cases k) (simp add: key_rgba_def getRGBKey_def)

lemma getCacheId_eq: "getCacheId (key_rgba k) theme = getCacheId rgb theme \<Longrightarrow> key_rgba k = rgb"
proof -
  assume "getCacheId (key_rgba k) theme = getCacheId rgb theme"
  then have "k = getRGBKey rgb" by (simp add: getCacheId_def)
  then show ?thesis by simp
qed

lemma modify_state:
  "snd (modifyColorWithCache parse rgb theme modifier st) =
     (if \<not> is_closure modifier \<and> colorModificationCache st (modifier, getCacheId rgb theme) \<noteq> None
      then st
      else st\<lparr>matrixCache := snd (getCachedFilterMatrix theme False (matrixCache st)),
              colorModificationCache :=
                (if is_closure modifier then colorModificationCache st
                 else (colorModificationCache st)((modifier, getCacheId rgb theme) \<mapsto>
                        fst (modifyColorWithCache parse rgb theme modifier st)))\<rparr>)"
  by (auto simp: modifyColorWithCache_def Let_def split_def split: option.splits)

lemma matrix_cache_coherent:
  assumes "\<forall>m. mc (theme_id theme, False) = Some m \<longrightarrow> m = createFilterMatrix theme False"
  shows "\<forall>m. snd (getCachedFilterMatrix theme False mc) (theme_id theme, False) = Some m \<longrightarrow>
             m = createFilterMatrix theme False"
  using assms by (auto simp: getCachedFilterMatrix_def Let_def split: option.splits)

lemma modify_coherent:
  assumes "coherent parse theme opt_mode st"
  shows "coherent parse theme opt_mode (snd (modifyColorWithCache parse rgb theme modifier st))"
proof (cases "\<not> is_closure modifier \<and> colorModificationCache st (modifier, getCacheId rgb theme) \<noteq> None")
  case True
  then show ?thesis using assms by (simp add: modify_state)
next
  case False
  have res: "fst (modifyColorWithCache parse rgb theme modifier st) =
               uncached_result parse rgb theme modifier"
    using assms by (rule modify_result)
  have pal: "\<forall>ctype pal k v. colorPalettes st ctype = Some pal \<and> pal k = Some v \<and> v \<noteq> [] \<longrightarrow>
          v = pure_transform parse (key_rgba k) ctype theme opt_mode"
    and mods: "\<forall>modifier k v.
            colorModificationCache st (modifier, getCacheId (key_rgba k) theme) = Some v \<longrightarrow>
            v = uncached_result parse (key_rgba k) theme modifier"
    and mat: "\<forall>m. matrixCache st (theme_id theme, False) = Some m \<longrightarrow>
            m = createFilterMatrix theme False"
    using assms unfolding coherent_def by blast+
  have mods': "\<forall>md k v.
      (if is_closure modifier then colorModificationCache st
       else (colorModificationCache st)((modifier, getCacheId rgb theme) \<mapsto>
              uncached_result parse rgb theme modifier)) (md, getCacheId (key_rgba k) theme) = Some v \<longrightarrow>
      v = uncached_result parse (key_rgba k) theme md"
  proof (intro allI impI)
    fix md k v
    assume a: "(if is_closure modifier then colorModificationCache st
       else (colorModificationCache st)((modifier, getCacheId rgb theme) \<mapsto>
              uncached_result parse rgb theme modifier)) (md, getCacheId (key_rgba k) theme) = Some v"
    show "v = uncached_result parse (key_rgba k) theme md"
    proof (cases "\<not> is_closure modifier \<and> md = modifier
                  \<and> getCacheId (key_rgba k) theme = getCacheId rgb theme")
      case True
      then have "key_rgba k = rgb" using getCacheId_eq by blast
      then show ?thesis using a True by simp
    next
      case False
      then have "colorModificationCache st (md, getCacheId (key_rgba k) theme) = Some v"
        using a by (auto split: if_splits)
      then show ?thesis using mods by blast
    qed
  qed
  have st': "snd (modifyColorWithCache parse rgb theme modifier st) =
      st\<lparr>matrixCache := snd (getCachedFilterMatrix theme False (matrixCache st)),
         colorModificationCache :=
           (if is_closure modifier then colorModificationCache st
            else (colorModificationCache st)((modifier, getCacheId rgb theme) \<mapsto>
                   uncached_result parse rgb theme modifier))\<rparr>"
    using False by (simp only: modify_state res if_False)
  show ?thesis
    unfolding coherent_def st'
    using pal mods' matrix_cache_coherent [of "matrixCache st" theme, OF mat]
    by (simp del: split_paired_All)
qed


lemma palette_hit:
  assumes "coherent parse theme opt_mode st"
    and "getRegisteredColor ctype rgb (colorPalettes st) = Some v" "v \<noteq> []"
  shows "v = pure_transform parse rgb ctype theme opt_mode"
proof -
  obtain pal where pal: "colorPalettes st ctype = Some pal" "pal (getRGBKey rgb) = Some v"
    using assms(2) by (auto simp: getRegisteredColor_def split: option.splits)
  have "v = pure_transform parse (key_rgba (getRGBKey rgb)) ctype theme opt_mode"
    using assms(1,3) pal unfolding coherent_def by blast
  then show ?thesis by simp
qed

lemma transform_hit:
  assumes "palette_answers ctype rgb opt_sr st"
  shows "transformColor parse rgb ctype theme opt_mode opt_sr st =
           (the (getRegisteredColor ctype rgb (colorPalettes st)), st)"
  using assms by (auto simp: transformColor_def palette_answers_def Let_def split: if_splits)

lemma transform_miss:
  assumes "\<not> palette_answers ctype rgb opt_sr st"
  shows "transformColor parse rgb ctype theme opt_mode opt_sr st =
     (let modifier = select_modifier ctype (is_dark_mode theme opt_mode);
          r = modifyColorWithCache parse rgb theme modifier st
      in (fst r,
          if (case opt_sr of None \<Rightarrow> True | Some b \<Rightarrow> b)
          then (snd r)\<lparr>colorPalettes := registerColor ctype rgb (fst r) (colorPalettes (snd r))\<rparr>
          else snd r))"
  using assms
  by (cases opt_sr)
    (auto simp: transformColor_def palette_answers_def Let_def is_dark_mode_def split_def)

lemma transform_result:
  assumes "coherent parse theme opt_mode st"
  shows "fst (transformColor parse rgb ctype theme opt_mode opt_sr st) =
           pure_transform parse rgb ctype theme opt_mode"
proof (cases "palette_answers ctype rgb opt_sr st")
  case True
  then obtain v where v: "getRegisteredColor ctype rgb (colorPalettes st) = Some v" "v \<noteq> []"
    by (auto simp: palette_answers_def Let_def split: if_splits)
  from palette_hit [OF assms v] show ?thesis using True v by (simp add: transform_hit)
next
  case False
  then show ?thesis
    using modify_result [OF assms]
    by (simp add: transform_miss Let_def pure_transform_def)
qed

lemma register_coherent:
  assumes "coherent parse theme opt_mode st"
  shows "coherent parse theme opt_mode
           (st\<lparr>colorPalettes := registerColor ctype rgb (pure_transform parse rgb ctype theme opt_mode)
                                  (colorPalettes st)\<rparr>)"
proof -
  have pal: "\<forall>ct pal k v. colorPalettes st ct = Some pal \<and> pal k = Some v \<and> v \<noteq> [] \<longrightarrow>
          v = pure_transform parse (key_rgba k) ct theme opt_mode"
    using assms unfolding coherent_def by blast
  have "\<forall>ct pal k v.
      registerColor ctype rgb (pure_transform parse rgb ctype theme opt_mode) (colorPalettes st) ct
        = Some pal \<and> pal k = Some v \<and> v \<noteq> [] \<longrightarrow>
      v = pure_transform parse (key_rgba k) ct theme opt_mode"
  proof (intro allI impI)
    fix ct pal k v
    assume a: "registerColor ctype rgb (pure_transform parse rgb ctype theme opt_mode)
                 (colorPalettes st) ct = Some pal \<and> pal k = Some v \<and> v \<noteq> []"
    show "v = pure_transform parse (key_rgba k) ct theme opt_mode"
    proof (cases "ct = ctype \<and> k = getRGBKey rgb")
      case True
      then show ?thesis using a by (auto simp: registerColor_def Let_def)
    next
      case False
      then obtain pal0 where "colorPalettes st ct = Some pal0" "pal0 k = Some v"
        using a by (auto simp: registerColor_def Let_def split: if_splits option.splits)
      then show ?thesis using pal a by blast
    qed
  qed
  then show ?thesis using assms unfolding coherent_def by (simp del: split_paired_All)
qed

lemma transform_coherent:
  assumes "coherent parse theme opt_mode st"
  shows "coherent parse theme opt_mode (snd (transformColor parse rgb ctype theme opt_mode opt_sr st))"
proof (cases "palette_answers ctype rgb opt_sr st")
  case True
  then show ?thesis using assms by (simp add: transform_hit)
next
  case False
  let ?m = "select_modifier ctype (is_dark_mode theme opt_mode)"
  have r: "fst (modifyColorWithCache parse rgb theme ?m st) = pure_transform parse rgb ctype theme opt_mode"
    using modify_result [OF assms] by (simp add: pure_transform_def)
  have c: "coherent parse theme opt_mode (snd (modifyColorWithCache parse rgb theme ?m st))"
    using assms by (rule modify_coherent)
  show ?thesis
    using False c register_coherent [OF c, of ctype rgb]
    by (simp add: transform_miss Let_def r)
qed

lemma cleared_coherent: "coherent parse theme opt_mode (clearColorCache st)"
  by (auto simp: coherent_def clearColorCache_def clearColorPalette_def)

section \<open>The transformation of concrete colours, and purity\<close>

lemma powr_pow:
  fixes x a :: real
  assumes "0 < x"
  shows "(x powr a) ^ n = x powr (a * real n)"
proof -
  have p: "0 < x powr a" using assms by simp
  have "(x powr a) ^ n = (x powr a) powr (real n)" using powr_realpow [OF p, of n] by simp
  then show ?thesis by (simp add: powr_powr)
qed

lemma pow_less_base:
  fixes x y :: real
  assumes "x ^ n < y ^ n" "0 \<le> y"
  shows "x < y"
  using assms power_less_imp_less_base by blast

lemma gamma22_pow11: "(2 powr (1 / 2.2 - 1) :: real) ^ 11 = 1 / 64"
proof -
  have e: "(1 / 2.2 - 1) * real 11 = - 6" by simp
  have "(2 powr (1 / 2.2 - 1) :: real) ^ 11 = 2 powr ((1 / 2.2 - 1) * real 11)"
    by (rule powr_pow) simp
  also have "\<dots> = 2 powr (- 6)" unfolding e ..
  also have "\<dots> = 1 / 64" by (simp add: powr_minus)
  finally show ?thesis .
qed

lemma gamma22_bounds:
  "0.6851 < (2 powr (1 / 2.2 - 1) :: real)" "(2 powr (1 / 2.2 - 1) :: real) < 0.68518"
proof -
  have "(0.6851 :: real) ^ 11 < 1 / 64" by (simp add: power_divide)
  then have "(0.6851 :: real) ^ 11 < (2 powr (1 / 2.2 - 1)) ^ 11"
    by (simp only: gamma22_pow11)
  then show "0.6851 < (2 powr (1 / 2.2 - 1) :: real)"
    by (rule pow_less_base) simp
  have "1 / 64 < (0.68518 :: real) ^ 11" by (simp add: power_divide)
  then have "(2 powr (1 / 2.2 - 1) :: real) ^ 11 < 0.68518 ^ 11"
    by (simp only: gamma22_pow11)
  then show "(2 powr (1 / 2.2 - 1) :: real) < 0.68518"
    by (rule pow_less_base) simp
qed



lemma round_scaled:
  assumes "0 \<le> v" "v \<le> 1" "0 \<le> x" "x \<le> 255"
    and "of_int k - 1 / 2 \<le> v * x" "v * x < of_int k + 1 / 2"
  shows "js_round (unit_clamp (v * (x / 255)) * 255) = k"
proof -
  have "0 \<le> v * (x / 255)" using assms(1,3) by simp
  moreover have "v * (x / 255) \<le> 1"
    using mult_mono [of v 1 "x / 255" 1] assms(1-4) by simp
  ultimately have "unit_clamp (v * (x / 255)) = v * (x / 255)"
    by (simp add: unit_clamp_def)
  then have "unit_clamp (v * (x / 255)) * 255 = v * x" by simp
  then show ?thesis using assms(5,6) by (simp add: js_round_def floor_eq_iff)
qed

lemma apply_diagonal:
  assumes "mvalues M = diagonal v"
  shows "applyColorMatrix \<lparr>rgb_r = x, rgb_g = y, rgb_b = z, rgb_a = a\<rparr> M =
     \<lparr>rgb_r = of_int (js_round (unit_clamp (v * (x / 255)) * 255)),
      rgb_g = of_int (js_round (unit_clamp (v * (y / 255)) * 255)),
      rgb_b = of_int (js_round (unit_clamp (v * (z / 255)) * 255)),
      rgb_a = a\<rparr>"
  using assms by (simp add: applyColorMatrix_def Let_def diagonal_def)

lemma compose_identity_diagonal:
  assumes "mvalues M = diagonal v"
  shows "mvalues (composeMatrices IDENTITY_MATRIX M) = diagonal v"
  using assms by (simp add: composeMatrices_def IDENTITY_MATRIX_def diagonal_def Let_def)

lemma toHex_byte:
  assumes "16 \<le> n" "n < 256"
  shows "toHex (of_int (int n)) = [hex_char (n div 16), hex_char (n mod 16)]"
proof -
  have "n div 16 < 16" using assms by simp
  then have "hex_str n = [hex_char (n div 16), hex_char (n mod 16)]"
    using assms hex_str.simps [of n] hex_str.simps [of "n div 16"] by simp
  moreover have "js_round (real n) = int n"
    using js_round_of_int [of "int n"] by simp
  ultimately show ?thesis by (simp add: toHex_def Let_def)
qed



lemma parsePalette_dark_text:
  "parsePalette ''#e8e6e3'' = Some \<lparr>rgb_r = 232, rgb_g = 230, rgb_b = 227, rgb_a = 1\<rparr>"
  by (simp add: parsePalette_def parseColor_def toLowerCase_def trim_def is_space_def lower_char_def
      startsWith_def parseHex_def parseInt16_def hex_digit_def substring_def Let_def)

lemma parsePalette_light_text:
  "parsePalette ''#181a1b'' = Some \<lparr>rgb_r = 24, rgb_g = 26, rgb_b = 27, rgb_a = 1\<rparr>"
  by (simp add: parsePalette_def parseColor_def toLowerCase_def trim_def is_space_def lower_char_def
      startsWith_def parseHex_def parseInt16_def hex_digit_def substring_def Let_def)

lemma hsl_l_rgbToHSL:
  "hsl_l (rgbToHSL c) =
     (max (max (rgb_r c / 255) (rgb_g c / 255)) (rgb_b c / 255)
      + min (min (rgb_r c / 255) (rgb_g c / 255)) (rgb_b c / 255)) / 2"
  by (simp add: rgbToHSL_def Let_def)

lemma hsl_a_rgbToHSL: "hsl_a (rgbToHSL c) = rgb_a c"
  by (simp add: rgbToHSL_def Let_def)

lemma rgbToHSL_white: "rgbToHSL white = \<lparr>hsl_h = 0, hsl_s = 0, hsl_l = 1, hsl_a = 1\<rparr>"
  by (simp add: rgbToHSL_def white_def Let_def)


lemma HSLA_eta: "\<lparr>hsl_h = hsl_h P, hsl_s = hsl_s P, hsl_l = hsl_l P, hsl_a = hsl_a P\<rparr> = P"
  by (cases P) simp

lemma no_op_filters:
  assumes "hueRotate fs = None" "saturate fs = None" "grayscale fs = None" "sepia fs = None"
  shows "applyThemeFilters P (Some fs) = P"
  using assms by (simp add: applyThemeFilters_def Let_def HSLA_eta)

lemma fg_dark_white:
  "modifiedRGB parsePalette white dark_profile ForegroundDarkMode =
     \<lparr>rgb_r = 232, rgb_g = 230, rgb_b = 227, rgb_a = 1\<rparr>"
proof -
  define P where "P = rgbToHSL \<lparr>rgb_r = 232, rgb_g = 230, rgb_b = 227, rgb_a = 1\<rparr>"
  have pl: "hsl_l P = 0.9" by (simp add: P_def hsl_l_rgbToHSL)
  have pa: "hsl_a P = 1" by (simp add: P_def hsl_a_rgbToHSL)
  have poles: "pole_text (getColorPoles parsePalette dark_profile) = P"
    by (simp add: getColorPoles_def dark_profile_def parsePalette_dark_text Let_def P_def)
  have mc: "minimumContrast dark_profile = Some 4.5" by (simp add: dark_profile_def)
  have "transformForegroundDarkMode (rgbToHSL white) (getColorPoles parsePalette dark_profile) dark_profile
          = \<lparr>hsl_h = hsl_h P, hsl_s = hsl_s P, hsl_l = hsl_l P, hsl_a = hsl_a P\<rparr>"
    by (simp add: transformForegroundDarkMode_def rgbToHSL_white Let_def isNeutralColor_def
        scale_fin_def clamp_fin_def poles pl pa truthy_def MIN_FG_LIGHTNESS_def mc)
  then have t: "transformForegroundDarkMode (rgbToHSL white) (getColorPoles parsePalette dark_profile)
                  dark_profile = P"
    by (simp only: HSLA_eta)
  have f: "applyThemeFilters P (filters dark_profile) = P"
    by (simp add: dark_profile_def no_filters_def no_op_filters)
  have "modifiedRGB parsePalette white dark_profile ForegroundDarkMode = hslToRGB P"
    by (simp add: modifiedRGB_def Let_def t f)
  also have "\<dots> = \<lparr>rgb_r = 232, rgb_g = 230, rgb_b = 227, rgb_a = 1\<rparr>"
    unfolding P_def using roundtrip_real [of 232 230 227 1] js_round_of_int [of 232]
      js_round_of_int [of 230] js_round_of_int [of 227] by simp
  finally show ?thesis .
qed

lemma fg_light_white:
  "modifiedRGB parsePalette white light_profile ForegroundLightMode =
     \<lparr>rgb_r = 24, rgb_g = 26, rgb_b = 27, rgb_a = 1\<rparr>"
proof -
  define P where "P = rgbToHSL \<lparr>rgb_r = 24, rgb_g = 26, rgb_b = 27, rgb_a = 1\<rparr>"
  have pl: "hsl_l P = 0.1" by (simp add: P_def hsl_l_rgbToHSL)
  have pa: "hsl_a P = 1" by (simp add: P_def hsl_a_rgbToHSL)
  have poles: "pole_text (getColorPoles parsePalette light_profile) = P"
    by (simp add: getColorPoles_def light_profile_def parsePalette_light_text Let_def P_def)
  have "transformForegroundLightMode (rgbToHSL white) (getColorPoles parsePalette light_profile) light_profile
          = \<lparr>hsl_h = hsl_h P, hsl_s = hsl_s P, hsl_l = hsl_l P, hsl_a = hsl_a P\<rparr>"
    by (simp add: transformForegroundLightMode_def rgbToHSL_white Let_def isNeutralColor_def
        scale_fin_def clamp_fin_def poles pl pa)
  then have t: "transformForegroundLightMode (rgbToHSL white) (getColorPoles parsePalette light_profile)
                  light_profile = P"
    by (simp only: HSLA_eta)
  have f: "applyThemeFilters P (filters light_profile) = P"
    by (simp add: light_profile_def applyThemeFilters_def)
  have "modifiedRGB parsePalette white light_profile ForegroundLightMode = hslToRGB P"
    by (simp add: modifiedRGB_def Let_def t f)
  also have "\<dots> = \<lparr>rgb_r = 24, rgb_g = 26, rgb_b = 27, rgb_a = 1\<rparr>"
    unfolding P_def using roundtrip_real [of 24 26 27 1] js_round_of_int [of 24]
      js_round_of_int [of 26] js_round_of_int [of 27] by simp
  finally show ?thesis .
qed

lemma channel_round:
  assumes "lo < v" "v < hi" "0 \<le> lo" "hi \<le> 1" "0 \<le> x" "x \<le> 255"
    and "of_int k - 1 / 2 \<le> lo * x" "hi * x \<le> of_int k + 1 / 2" "0 < x"
  shows "js_round (unit_clamp (v * (x / 255)) * 255) = k"
proof -
  have "lo * x < v * x" "v * x < hi * x" using assms(1,2,9) by simp_all
  then have "of_int k - 1 / 2 \<le> v * x" "v * x < of_int k + 1 / 2"
    using assms(7,8) by linarith+
  moreover have "0 \<le> v" "v \<le> 1" using assms(1-4) by linarith+
  ultimately show ?thesis using assms(5,6) by (intro round_scaled) simp_all
qed

lemma createFilterMatrix_split:
  "createFilterMatrix theme isDarkMode =
     composeMatrices (brightness_contrast_matrix theme)
       (createGammaMatrix (if isDarkMode then 2.0 else 2.2))"
  by (simp add: createFilterMatrix_def brightness_contrast_matrix_def Let_def)

lemma bc_dark: "brightness_contrast_matrix dark_profile = IDENTITY_MATRIX"
  by (simp add: brightness_contrast_matrix_def dark_profile_def no_filters_def truthy_def Let_def)

lemma bc_light: "brightness_contrast_matrix light_profile = IDENTITY_MATRIX"
  by (simp add: brightness_contrast_matrix_def light_profile_def no_filters_def truthy_def Let_def)

lemma gamma_diagonal: "mvalues (createGammaMatrix g) = diagonal (2 powr (1 / g - 1))"
  by (simp add: createGammaMatrix_def Let_def)

lemma dark_matrix_light_mode:
  "mvalues (createFilterMatrix dark_profile False) = diagonal (2 powr (1 / 2.2 - 1))"
  unfolding createFilterMatrix_split bc_dark
  by (rule compose_identity_diagonal) (simp only: gamma_diagonal if_False)


lemma light_matrix_light_mode:
  "mvalues (createFilterMatrix light_profile False) = diagonal (2 powr (1 / 2.2 - 1))"
  unfolding createFilterMatrix_split bc_light
  by (rule compose_identity_diagonal) (simp only: gamma_diagonal if_False)

lemma toHex_numeral:
  assumes "16 \<le> n" "n < 256"
  shows "toHex (real n) = [hex_char (n div 16), hex_char (n mod 16)]"
  using toHex_byte [OF assms] by simp

lemma rgbToHex_opaque:
  "rgbToHex \<lparr>rgb_r = x, rgb_g = y, rgb_b = z, rgb_a = 1\<rparr> = ''#'' @ toHex x @ toHex y @ toHex z"
  by (simp add: rgbToHex_def)

lemma hex_dark_gamma22:
  "rgbToHex (applyColorMatrix \<lparr>rgb_r = 232, rgb_g = 230, rgb_b = 227, rgb_a = 1\<rparr>
               (createFilterMatrix dark_profile False)) = ''#9f9e9c''"
proof -
  note b = gamma22_bounds
  have r: "js_round (unit_clamp (2 powr (1 / 2.2 - 1) * (232 / 255)) * 255) = 159"
    by (rule channel_round [OF b]) simp_all
  have g: "js_round (unit_clamp (2 powr (1 / 2.2 - 1) * (230 / 255)) * 255) = 158"
    by (rule channel_round [OF b]) simp_all
  have bl: "js_round (unit_clamp (2 powr (1 / 2.2 - 1) * (227 / 255)) * 255) = 156"
    by (rule channel_round [OF b]) simp_all
  have "applyColorMatrix \<lparr>rgb_r = 232, rgb_g = 230, rgb_b = 227, rgb_a = 1\<rparr>
               (createFilterMatrix dark_profile False) =
          \<lparr>rgb_r = real 159, rgb_g = real 158, rgb_b = real 156, rgb_a = 1\<rparr>"
    unfolding apply_diagonal [OF dark_matrix_light_mode] r g bl by simp
  then show ?thesis
    unfolding rgbToHex_opaque
    by (simp only: rgbToHex_opaque toHex_numeral) (simp add: hex_char_def)
qed



lemma hex_light_gamma22:
  "rgbToHex (applyColorMatrix \<lparr>rgb_r = 24, rgb_g = 26, rgb_b = 27, rgb_a = 1\<rparr>
               (createFilterMatrix light_profile False)) = ''#101212''"
proof -
  note b = gamma22_bounds
  have r: "js_round (unit_clamp (2 powr (1 / 2.2 - 1) * (24 / 255)) * 255) = 16"
    by (rule channel_round [OF b]) simp_all
  have g: "js_round (unit_clamp (2 powr (1 / 2.2 - 1) * (26 / 255)) * 255) = 18"
    by (rule channel_round [OF b]) simp_all
  have bl: "js_round (unit_clamp (2 powr (1 / 2.2 - 1) * (27 / 255)) * 255) = 18"
    by (rule channel_round [OF b]) simp_all
  have "applyColorMatrix \<lparr>rgb_r = 24, rgb_g = 26, rgb_b = 27, rgb_a = 1\<rparr>
               (createFilterMatrix light_profile False) =
          \<lparr>rgb_r = real 16, rgb_g = real 18, rgb_b = real 18, rgb_a = 1\<rparr>"
    unfolding apply_diagonal [OF light_matrix_light_mode] r g bl by simp
  then show ?thesis
    by (simp only: rgbToHex_opaque toHex_numeral) (simp add: hex_char_def)
qed

lemma new_state_coherent: "coherent parse theme opt_mode new_TransformState"
  by (simp add: coherent_def new_TransformState_def)

lemma pure_dark_white_text: "pure_transform parsePalette white Text dark_profile None = ''#9f9e9c''"
  by (simp add: pure_transform_def uncached_result_def select_modifier_def is_dark_mode_def
      detectThemeMode_def dark_profile_def [THEN arg_cong, of theme_id] fg_dark_white hex_dark_gamma22)


lemma pure_light_white_text: "pure_transform parsePalette white Text light_profile None = ''#101212''"
  by (simp add: pure_transform_def uncached_result_def select_modifier_def is_dark_mode_def
      detectThemeMode_def light_profile_def [THEN arg_cong, of theme_id] fg_light_white
      hex_light_gamma22)

lemma modify_keeps_palette:
  "colorPalettes (snd (modifyColorWithCache parse rgb theme modifier st)) = colorPalettes st"
  by (simp add: modify_state)

lemma registered_after_register:
  "getRegisteredColor ctype rgb (registerColor ctype rgb v pals) = Some v"
  by (simp add: getRegisteredColor_def registerColor_def Let_def)

lemma transform_then_hit:
  assumes "\<not> palette_answers ctype rgb None st"
    and "fst (transformColor parse rgb ctype theme m None st) \<noteq> []"
  shows "fst (transformColor parse' rgb ctype theme' m' None
                (snd (transformColor parse rgb ctype theme m None st))) =
         fst (transformColor parse rgb ctype theme m None st)"
proof -
  let ?r = "transformColor parse rgb ctype theme m None st"
  have "getRegisteredColor ctype rgb (colorPalettes (snd ?r)) = Some (fst ?r)"
    using assms(1) by (simp add: transform_miss Let_def registered_after_register)
  then have "palette_answers ctype rgb None (snd ?r)"
    "the (getRegisteredColor ctype rgb (colorPalettes (snd ?r))) = fst ?r"
    using assms(2) by (simp_all add: palette_answers_def)
  then show ?thesis by (simp add: transform_hit)
qed

lemma calls_results:
  assumes "coherent parse theme opt_mode st"
  shows "fst (transform_calls parse theme opt_mode calls st) =
           map (\<lambda>(rgb, ctype, opt_sr). pure_transform parse rgb ctype theme opt_mode) calls
       \<and> coherent parse theme opt_mode (snd (transform_calls parse theme opt_mode calls st))"
  using assms
proof (induction calls arbitrary: st)
  case Nil
  then show ?case by simp
next
  case (Cons c calls)
  obtain rgb ctype opt_sr where c: "c = (rgb, ctype, opt_sr)" by (cases c) auto
  have r: "fst (transformColor parse rgb ctype theme opt_mode opt_sr st) =
             pure_transform parse rgb ctype theme opt_mode"
    using Cons.prems by (rule transform_result)
  have "coherent parse theme opt_mode (snd (transformColor parse rgb ctype theme opt_mode opt_sr st))"
    using Cons.prems by (rule transform_coherent)
  from Cons.IH [OF this] show ?case by (simp add: c Let_def r)
qed

text \<open>
  C1 as stated fails: the palette is keyed by color type and colour only, so a call for
  another theme in between changes the answer. White as text under the light profile
  gives \<open>#101212\<close> on fresh caches, but \<open>#9f9e9c\<close>, the dark profile's answer, right
  after the same colour was transformed for the dark profile.
\<close>

theorem transformColor_other_theme_counterexample:
  "fst (transformColor parsePalette white Text light_profile None None new_TransformState) = ''#101212''
   \<and> fst (transformColor parsePalette white Text light_profile None None
           (snd (transformColor parsePalette white Text dark_profile None None new_TransformState)))
       = ''#9f9e9c''"
proof -
  have d: "fst (transformColor parsePalette white Text dark_profile None None new_TransformState)
             = ''#9f9e9c''"
    using transform_result [OF new_state_coherent, of parsePalette white Text dark_profile None None]
    by (simp only: pure_dark_white_text)
  have l: "fst (transformColor parsePalette white Text light_profile None None new_TransformState)
             = ''#101212''"
    using transform_result [OF new_state_coherent, of parsePalette white Text light_profile None None]
    by (simp only: pure_light_white_text)
  have n: "\<not> palette_answers Text white None new_TransformState"
    by (simp add: palette_answers_def new_TransformState_def getRegisteredColor_def)
  have "fst (transformColor parsePalette white Text light_profile None None
           (snd (transformColor parsePalette white Text dark_profile None None new_TransformState)))
        = fst (transformColor parsePalette white Text dark_profile None None new_TransformState)"
    by (rule transform_then_hit [OF n]) (simp add: d)
  then show ?thesis using d l by simp
qed

text \<open>
  C1 (as amended): between two flushes of the caches, while every call passes the same
  theme profile and the same mode option, \<open>transformColor\<close> is a pure function of the
  colour and the color type: from a state whose caches agree with that profile (as after
  \<open>clearColorCache\<close>, or a new state), every call of a sequence returns the uncached
  value for its inputs, whatever the calls before it and their \<open>shouldRegister\<close>
  options; so identical inputs give identical hex strings.
\<close>

theorem transformColor_pure_within_theme:
  assumes "coherent parse theme opt_mode st"
  shows "fst (transformColor parse rgb ctype theme opt_mode opt_sr st) =
             pure_transform parse rgb ctype theme opt_mode
       \<and> fst (transform_calls parse theme opt_mode calls st) =
           map (\<lambda>(rgb, ctype, opt_sr). pure_transform parse rgb ctype theme opt_mode) calls
       \<and> coherent parse theme opt_mode (snd (transform_calls parse theme opt_mode calls st))
       \<and> coherent parse theme opt_mode (clearColorCache st0)"
  using transform_result [OF assms] calls_results [OF assms] cleared_coherent by blast

theorem transformColor_pure_within_theme_witness:
  "coherent parsePalette dark_profile None new_TransformState
   \<and> fst (transformColor parsePalette white Text dark_profile None None new_TransformState) = ''#9f9e9c''
   \<and> fst (transform_calls parsePalette dark_profile None
            [(white, Text, None), (white, Text, Some False), (white, Text, None)]
            new_TransformState) = [''#9f9e9c'', ''#9f9e9c'', ''#9f9e9c'']"
  using transformColor_pure_within_theme [OF new_state_coherent,
      of parsePalette white Text dark_profile None None
         "[(white, Text, None), (white, Text, Some False), (white, Text, None)]"]
    new_state_coherent [of parsePalette dark_profile None]
  by (simp add: pure_dark_white_text del: transform_calls.simps)

text \<open>The matrix of the perceptual-correction step. When neither the modification cache
  nor the matrix cache answers, it is built anew and stored under the light-mode key.\<close>

lemma modify_on_cache_miss:
  assumes "is_closure modifier \<or> colorModificationCache st (modifier, getCacheId rgb theme) = None"
    and "matrixCache st (theme_id theme, False) = None"
  shows "fst (modifyColorWithCache parse rgb theme modifier st) =
           rgbToHex (applyColorMatrix (modifiedRGB parse rgb theme modifier)
             (composeMatrices (brightness_contrast_matrix theme) (createGammaMatrix 2.2)))
       \<and> matrixCache (snd (modifyColorWithCache parse rgb theme modifier st)) =
           (matrixCache st)((theme_id theme, False) \<mapsto>
              composeMatrices (brightness_contrast_matrix theme) (createGammaMatrix 2.2))"
proof -
  have m: "createFilterMatrix theme False =
             composeMatrices (brightness_contrast_matrix theme) (createGammaMatrix 2.2)"
    by (simp only: createFilterMatrix_split if_False)
  have "fst (modifyColorWithCache parse rgb theme modifier st) =
          uncached_result parse rgb theme modifier"
    using assms by (intro modify_uncached) simp_all
  moreover have "matrixCache (snd (modifyColorWithCache parse rgb theme modifier st)) =
      (matrixCache st)((theme_id theme, False) \<mapsto> createFilterMatrix theme False)"
    using assms by (auto simp: modify_state getCachedFilterMatrix_def Let_def)
  ultimately show ?thesis by (simp only: uncached_result_def m)
qed












section \<open>Theme update and the registry\<close>

lemma updateTheme_empty_document:
  "\<not> isDestroyed eng \<Longrightarrow>
   globalColorRegistry (updateTheme parse transform theme opt [] eng) =
     clearTheme (themeIdString (theme_id theme)) (globalColorRegistry eng)"
  by (simp add: updateTheme_def Let_def)

lemma clearTheme_absent:
  "map_of (themeRegistry reg) tid = None \<Longrightarrow> clearTheme tid reg = reg"
  by (simp add: clearTheme_def)

lemma themeRegistry_after_first_register:
  "themeRegistry (register orgb ohex thex ctype tid ne now (new_ColorRegistry m)) =
     [(tid, [getKey orgb])]"
  by (simp add: register_def new_ColorRegistry_def evictLRU_def Let_def set_add_def)

text \<open>
  C3 (the code at the failing input): the engine holds the dark profile and the registry
  holds (10,10,10,1) as background under theme id "dark". After \<open>updateTheme\<close> with the
  light profile, on a document without inline styles, the registry is unchanged: the entry
  registered under the previous theme id is still there and still answers, because
  \<open>clearTheme\<close> was called with the id of the new theme.
\<close>

theorem updateTheme_leaves_previous_theme_entries:
  "globalColorRegistry
     (updateTheme parse transform light_profile None []
        \<lparr>eng_theme = Some dark_profile, isDestroyed = False, observersStarted = True,
         inlineObservationEnabled = False,
         globalColorRegistry =
           register \<lparr>rgb_r = Fin 10, rgb_g = Fin 10, rgb_b = Fin 10, rgb_a = Fin 1\<rparr>
             ''#0a0a0a'' ''#1b1b1b'' Background ''dark'' 1 1 (new_ColorRegistry 1000)\<rparr>)
   = register \<lparr>rgb_r = Fin 10, rgb_g = Fin 10, rgb_b = Fin 10, rgb_a = Fin 1\<rparr>
       ''#0a0a0a'' ''#1b1b1b'' Background ''dark'' 1 1 (new_ColorRegistry 1000)
   \<and> fst (getTransformed \<lparr>rgb_r = Fin 10, rgb_g = Fin 10, rgb_b = Fin 10, rgb_a = Fin 1\<rparr>
           Background ''dark'' 2
           (globalColorRegistry
              (updateTheme parse transform light_profile None []
                 \<lparr>eng_theme = Some dark_profile, isDestroyed = False, observersStarted = True,
                  inlineObservationEnabled = False,
                  globalColorRegistry =
                    register \<lparr>rgb_r = Fin 10, rgb_g = Fin 10, rgb_b = Fin 10, rgb_a = Fin 1\<rparr>
                      ''#0a0a0a'' ''#1b1b1b'' Background ''dark'' 1 1 (new_ColorRegistry 1000)\<rparr>)))
       = Some ''#1b1b1b''"
proof -
  let ?c = "\<lparr>rgb_r = Fin 10, rgb_g = Fin 10, rgb_b = Fin 10, rgb_a = Fin 1\<rparr>"
  let ?reg = "register ?c ''#0a0a0a'' ''#1b1b1b'' Background ''dark'' 1 1 (new_ColorRegistry 1000)"
  have "map_of (themeRegistry ?reg) (themeIdString (theme_id light_profile)) = None"
    by (simp add: themeRegistry_after_first_register light_profile_def)
  then have "clearTheme (themeIdString (theme_id light_profile)) ?reg = ?reg"
    by (rule clearTheme_absent)
  then have e: "globalColorRegistry
     (updateTheme parse transform light_profile None []
        \<lparr>eng_theme = Some dark_profile, isDestroyed = False, observersStarted = True,
         inlineObservationEnabled = False, globalColorRegistry = ?reg\<rparr>) = ?reg"
    by (simp add: updateTheme_empty_document)
  show ?thesis unfolding e by (simp add: getTransformed_after_register)
qed

theorem updateTheme_leaves_previous_theme_entries_witness:
  "fst (getTransformed \<lparr>rgb_r = Fin 10, rgb_g = Fin 10, rgb_b = Fin 10, rgb_a = Fin 1\<rparr>
           Background ''dark'' 2
           (globalColorRegistry
              (updateTheme (\<lambda>s. None) (\<lambda>rgb ctype theme. ''#000000'') light_profile None []
                 \<lparr>eng_theme = Some dark_profile, isDestroyed = False, observersStarted = True,
                  inlineObservationEnabled = False,
                  globalColorRegistry =
                    register \<lparr>rgb_r = Fin 10, rgb_g = Fin 10, rgb_b = Fin 10, rgb_a = Fin 1\<rparr>
                      ''#0a0a0a'' ''#1b1b1b'' Background ''dark'' 1 1 (new_ColorRegistry 1000)\<rparr>)))
       = Some ''#1b1b1b''"
  using updateTheme_leaves_previous_theme_entries
          [of "\<lambda>s. None" "\<lambda>rgb ctype theme. ''#000000''"]
  by (rule conjunct2)


end

